theory Spec2Isabelle
  imports Complex_Main "HOL-Library.Log_Nat"
begin

section \<open>Data model\<close>

text \<open>
  The pre-trained model is an opaque collaborator. It enters the embedding as two
  parameters: \<open>nlp\<close>, which maps a text to the spans of \<open>nlp(text).ents\<close>, and
  \<open>explain\<close>, which is \<open>spacy.explain\<close> (it returns \<open>None\<close> for a label it does not
  know).
\<close>

record span =
  span_text :: string
  span_label :: string

type_synonym nlp = "string \<Rightarrow> span list"
type_synonym explain = "string \<Rightarrow> string option"

text \<open>The dictionary built by \<open>extract_entities\<close> (keys text, label, description).\<close>

record entity =
  ent_text :: string
  ent_label :: string
  ent_description :: "string option"

text \<open>The dictionary appended to \<open>all_results\<close> by \<open>analyze_texts\<close>; a row of the DataFrame.\<close>

record result =
  text_id :: nat
  original_text :: string
  entity_text :: string
  entity_type :: string
  description :: "string option"

text \<open>
  Exceptions. \<open>except Exception\<close> catches every exception class except those deriving
  from \<open>BaseException\<close> only, of which \<open>KeyboardInterrupt\<close> is the representative here.
\<close>

datatype exn =
  OSError string
| KeyError string
| ZeroDivisionError
| KeyboardInterrupt

fun is_Exception :: "exn \<Rightarrow> bool" where
  "is_Exception KeyboardInterrupt = False"
| "is_Exception _ = True"

text \<open>
  Console output. Each constructor is one \<open>print\<close> call of the source and carries the
  values interpolated into its f-string; the layout of the line (and the rounding of
  \<open>:.1f\<close>) is not modelled. A Python float is carried as the rational number that the
  double denotes.
\<close>

datatype console_line =
  AnalyzingTexts
| Rule nat
| TextHeader nat
| TextLine string
| EntitiesHeader
| EntityLine string string
| NoEntitiesFound
| TotalExtracted nat
| NoResultsToAnalyze
| SummaryHeader
| TotalTexts nat
| TotalEntities nat
| UniqueEntities nat
| EntityTypes nat
| AvgEntitiesPerText rat
| BreakdownHeader
| BreakdownLine string nat rat "string option"
| MostCommonHeader
| MostCommonLine string nat
| SavedCsv
| SavedSummary
| CouldNotSave exn
| TestingHeader
| EntitiesFoundHeader
| CustomEntityLine string string "string option"
| NoEntitiesTryAdding
| SampleTexts nat
| ProjectCompleted
| CheckFiles
| FileName string
| NoEntitiesInTexts

text \<open>
  The text written to the summary file: the values interpolated into the f-string of
  \<open>save_results\<close> and the lines appended by its loop.
\<close>

record summary_report =
  analysis_date :: string
  rep_total_texts :: nat
  rep_total_entities :: nat
  rep_unique_entities :: nat
  rep_entity_types :: nat
  rep_breakdown :: "(string \<times> nat \<times> rat) list"

text \<open>
  What a file holds: a table, a report, or (after a write that failed once the file had
  been opened) some prefix, possibly empty, of the text that was being written.
\<close>

datatype file_content =
  CsvFile "string list" "result list"
| TextFile summary_report
| PartialFile file_content

text \<open>
  The world outside the program: the console, the files on disk, the clock read by
  \<open>pd.Timestamp.now()\<close>, and for each file name the exception (if any) that writing it
  raises, with whether that happens only after the file has been opened for writing
  (and so truncated). \<open>write_log\<close> records every write that was attempted, in order.
\<close>

record world =
  console :: "console_line list"
  files :: "string \<Rightarrow> file_content option"
  write_log :: "string list"
  write_error :: "string \<Rightarrow> exn option"
  opened_before_failure :: "string \<Rightarrow> bool"
  now :: string

definition print :: "console_line \<Rightarrow> world \<Rightarrow> world" where
  "print l w = w\<lparr>console := console w @ [l]\<rparr>"

text \<open>
  Writing a file (\<open>df.to_csv(name)\<close>, or \<open>open(name, 'w')\<close> and \<open>f.write\<close>) either
  stores the content or raises the exception the world holds for that name. A failure on
  opening (permission denied) leaves the file as it was; a failure after opening (disk full)
  leaves a truncated file with part of the content. Either way the attempt is logged.
\<close>

definition write_file :: "string \<Rightarrow> file_content \<Rightarrow> world \<Rightarrow> (exn + unit) \<times> world" where
  "write_file name content w =
     (let w1 = w\<lparr>write_log := write_log w @ [name]\<rparr>
      in case write_error w name of
           Some e \<Rightarrow>
             (Inl e,
              if opened_before_failure w name
              then w1\<lparr>files := (files w1)(name \<mapsto> PartialFile content)\<rparr>
              else w1)
         | None \<Rightarrow> (Inr (), w1\<lparr>files := (files w1)(name \<mapsto> content)\<rparr>))"

section \<open>Floating-point arithmetic\<close>

text \<open>
  A Python float is an IEEE 754 double. Each arithmetic operation returns the exact result
  rounded to the nearest double, ties to the even significand. \<open>fl\<close> is that rounding on
  the rationals: \<open>binary_exponent x\<close> is the integer \<open>e\<close> with \<open>2^e \<le> x < 2^(e+1)\<close>, the
  doubles of that binade are the multiples of \<open>2^(e-52)\<close>, and \<open>x\<close> is rounded to the
  nearest of them. The exponent range is not modelled: the numbers rounded in this program
  are quotients of list lengths and their products with 100, which are far from overflow
  and underflow.
\<close>

definition round_half_even :: "rat \<Rightarrow> int" where
  "round_half_even y =
     (let f = \<lfloor>y\<rfloor>; d = y - of_int f
      in if d < 1 / 2 then f
         else if 1 / 2 < d then f + 1
         else if even f then f else f + 1)"

definition binary_exponent :: "rat \<Rightarrow> int" where
  "binary_exponent x =
     (case quotient_of x of
        (p, q) \<Rightarrow>
          (let e0 = bitlen p - bitlen q
           in if 2 powi e0 \<le> x then e0 else e0 - 1))"

definition fl :: "rat \<Rightarrow> rat" where
  "fl x =
     (if x = 0 then 0
      else let ulp = 2 powi (binary_exponent \<bar>x\<bar> - 52)
           in of_int (round_half_even (x / ulp)) * ulp)"

text \<open>
  Python's true division of two non-negative integers (the correctly rounded quotient),
  and the product of two floats.
\<close>

definition truediv :: "nat \<Rightarrow> nat \<Rightarrow> exn + rat" where
  "truediv a b = (if b = 0 then Inl ZeroDivisionError else Inr (fl (of_nat a / of_nat b)))"

definition float_mul :: "rat \<Rightarrow> rat \<Rightarrow> rat" where
  "float_mul x y = fl (x * y)"

section \<open>The pandas operations used\<close>

text \<open>
  \<open>Series.nunique()\<close>: the number of distinct values. (The columns it is applied to
  hold integers and strings, never a missing value.)
\<close>

definition nunique :: "'a list \<Rightarrow> nat" where
  "nunique xs = length (remdups xs)"

text \<open>
  \<open>Series.value_counts()\<close>: one entry per distinct value with its number of occurrences,
  in descending order of that number. Values with equal counts are kept here in the order
  of first appearance; the general theorems below hold for any order among equal counts.
\<close>

definition first_seen :: "'a list \<Rightarrow> 'a list" where
  "first_seen xs = rev (remdups (rev xs))"

definition value_counts :: "'a list \<Rightarrow> ('a \<times> nat) list" where
  "value_counts xs =
     sort_key (\<lambda>p. - int (snd p)) (map (\<lambda>k. (k, count_list xs k)) (first_seen xs))"

section \<open>The program\<close>

definition get_sample_texts :: "string list" where
  "get_sample_texts =
    [''Barack Obama was the 44th President of the United States and was born in Hawaii.'',
     ''Apple Inc. is a technology company based in Cupertino, California, founded by Steve Jobs.'',
     ''Sachin Tendulkar is a legendary cricket player from Mumbai, India.'',
     ''Microsoft Corporation was founded by Bill Gates and Paul Allen in 1975.'',
     ''The Eiffel Tower is a famous landmark located in Paris, France.'',
     ''Google was started by Larry Page and Sergey Brin at Stanford University.'',
     ''Lionel Messi plays football for Paris Saint-Germain and the Argentina national team.'',
     ''Amazon.com was founded by Jeff Bezos in Seattle, Washington.'']"

text \<open>\<open>extract_entities\<close>: the loop appends one dictionary per span of \<open>doc.ents\<close>.\<close>

definition extract_entities :: "nlp \<Rightarrow> explain \<Rightarrow> string \<Rightarrow> entity list" where
  "extract_entities nlp explain text =
     fold (\<lambda>ent entities.
             entities @ [\<lparr>ent_text = span_text ent, ent_label = span_label ent,
                          ent_description = explain (span_label ent)\<rparr>])
          (nlp text) []"

text \<open>
  \<open>analyze_texts\<close>. The state of the loops is the list \<open>all_results\<close> and the world (for
  the progress output). \<open>entity_loop\<close> is the inner \<open>for entity in entities\<close>,
  \<open>text_loop\<close> the outer \<open>for i, text in enumerate(texts)\<close> from index \<open>i\<close> on.
\<close>

fun entity_loop ::
  "nat \<Rightarrow> string \<Rightarrow> entity list \<Rightarrow> result list \<times> world \<Rightarrow> result list \<times> world" where
  "entity_loop i text [] (all_results, w) = (all_results, w)"
| "entity_loop i text (entity # entities) (all_results, w) =
     entity_loop i text entities
       (all_results @ [\<lparr>text_id = i + 1, original_text = text,
                         entity_text = ent_text entity, entity_type = ent_label entity,
                         description = ent_description entity\<rparr>],
        print (EntityLine (ent_text entity) (ent_label entity)) w)"

fun text_loop ::
  "nlp \<Rightarrow> explain \<Rightarrow> nat \<Rightarrow> string list \<Rightarrow> result list \<times> world \<Rightarrow> result list \<times> world" where
  "text_loop nlp explain i [] (all_results, w) = (all_results, w)"
| "text_loop nlp explain i (text # texts) (all_results, w) =
     (let w1 = print EntitiesHeader (print (TextLine text) (print (TextHeader (i + 1)) w));
          entities = extract_entities nlp explain text
      in text_loop nlp explain (i + 1) texts
           (if entities \<noteq> [] then entity_loop i text entities (all_results, w1)
            else (all_results, print NoEntitiesFound w1)))"

definition analyze_texts :: "nlp \<Rightarrow> explain \<Rightarrow> string list \<Rightarrow> world \<Rightarrow> result list \<times> world" where
  "analyze_texts nlp explain texts w =
     (case text_loop nlp explain 0 texts ([], print (Rule 50) (print AnalyzingTexts w)) of
        (all_results, w1) \<Rightarrow> (all_results, print (TotalExtracted (length all_results)) w1))"

text \<open>
  \<open>create_analysis_report\<close>. The pair \<open>(None, None)\<close> returned for an empty list is
  \<open>None\<close> here; otherwise the result is \<open>Some (df, entity_counts)\<close>. The DataFrame built
  from the list of dictionaries is that list of rows. Both divisions are Python's, which
  raise on a zero divisor. The local \<open>common_entities\<close> of line 103 is the function of that
  name applied to the frame.
\<close>

fun breakdown_loop ::
  "explain \<Rightarrow> nat \<Rightarrow> (string \<times> nat) list \<Rightarrow> world \<Rightarrow> (exn + unit) \<times> world" where
  "breakdown_loop explain total_entities [] w = (Inr (), w)"
| "breakdown_loop explain total_entities ((etype, count) # rest) w =
     (case truediv count total_entities of
        Inl e \<Rightarrow> (Inl e, w)
      | Inr q \<Rightarrow>
          (let percentage = float_mul q 100;
               descr = explain etype
           in breakdown_loop explain total_entities rest
                (print (BreakdownLine etype count percentage descr) w)))"

text \<open>Line 103: the ten most frequent entity texts with their counts.\<close>

definition common_entities :: "result list \<Rightarrow> (string \<times> nat) list" where
  "common_entities df = take 10 (value_counts (map entity_text df))"

fun common_loop :: "(string \<times> nat) list \<Rightarrow> world \<Rightarrow> world" where
  "common_loop [] w = w"
| "common_loop ((entity, count) # rest) w =
     common_loop rest (print (MostCommonLine entity count) w)"

definition create_analysis_report ::
  "explain \<Rightarrow> result list \<Rightarrow> world
     \<Rightarrow> (exn + (result list \<times> (string \<times> nat) list) option) \<times> world" where
  "create_analysis_report explain results w =
     (if results = [] then (Inr None, print NoResultsToAnalyze w)
      else
        let df = results;
            total_texts = nunique (map text_id df);
            total_entities = length df;
            unique_entities = nunique (map entity_text df);
            unique_types = nunique (map entity_type df)
        in case truediv total_entities total_texts of
             Inl e \<Rightarrow> (Inl e, w)
           | Inr avg_entities_per_text \<Rightarrow>
               (let entity_counts = value_counts (map entity_type df);
                    w1 = print SummaryHeader w;
                    w2 = print (Rule 40) w1;
                    w3 = print (TotalTexts total_texts) w2;
                    w4 = print (TotalEntities total_entities) w3;
                    w5 = print (UniqueEntities unique_entities) w4;
                    w6 = print (EntityTypes unique_types) w5;
                    w7 = print (AvgEntitiesPerText avg_entities_per_text) w6;
                    w8 = print BreakdownHeader w7
                in case breakdown_loop explain total_entities entity_counts w8 of
                     (Inl e, w9) \<Rightarrow> (Inl e, w9)
                   | (Inr u, w9) \<Rightarrow>
                       (let w10 = print MostCommonHeader w9;
                            w11 = common_loop (take 5 (common_entities df)) w10
                        in (Inr (Some (df, entity_counts)), w11))))"

text \<open>
  \<open>save_results\<close>. \<open>save_body\<close> is the body of the \<open>try\<close>; an exception leaves it with
  the world as it was when raised. Selecting a column of a DataFrame built from an empty
  list raises \<open>KeyError\<close> (such a frame has no columns), which is the first thing the
  f-string does after the CSV has been written.
\<close>

definition csv_header :: "string list" where
  "csv_header = [''text_id'', ''original_text'', ''entity_text'', ''entity_type'', ''description'']"

definition to_csv :: "result list \<Rightarrow> string \<Rightarrow> world \<Rightarrow> (exn + unit) \<times> world" where
  "to_csv df name w =
     write_file name (CsvFile (if df = [] then [] else csv_header) df) w"

fun report_loop ::
  "nat \<Rightarrow> (string \<times> nat) list \<Rightarrow> summary_report \<Rightarrow> exn + summary_report" where
  "report_loop n [] summary = Inr summary"
| "report_loop n ((etype, count) # rest) summary =
     (case truediv count n of
        Inl e \<Rightarrow> Inl e
      | Inr q \<Rightarrow>
          (let percentage = float_mul q 100
           in report_loop n rest
                (summary\<lparr>rep_breakdown :=
                   rep_breakdown summary @ [(etype, count, percentage)]\<rparr>)))"

definition save_body :: "result list \<Rightarrow> world \<Rightarrow> (exn + unit) \<times> world" where
  "save_body df w =
     (case to_csv df ''ner_results.csv'' w of
        (Inl e, w1) \<Rightarrow> (Inl e, w1)
      | (Inr u, w1) \<Rightarrow>
          (let w2 = print SavedCsv w1
           in if df = [] then (Inl (KeyError ''text_id''), w2)
              else
                let summary_report =
                      \<lparr>analysis_date = now w2,
                       rep_total_texts = nunique (map text_id df),
                       rep_total_entities = length df,
                       rep_unique_entities = nunique (map entity_text df),
                       rep_entity_types = nunique (map entity_type df),
                       rep_breakdown = []\<rparr>;
                    entity_counts = value_counts (map entity_type df)
                in case report_loop (length df) entity_counts summary_report of
                     Inl e \<Rightarrow> (Inl e, w2)
                   | Inr summary_report' \<Rightarrow>
                       (case write_file ''ner_summary_report.txt'' (TextFile summary_report') w2 of
                          (Inl e, w3) \<Rightarrow> (Inl e, w3)
                        | (Inr u', w3) \<Rightarrow> (Inr (), print SavedSummary w3))))"

definition save_results :: "result list \<Rightarrow> world \<Rightarrow> (exn + unit) \<times> world" where
  "save_results df w =
     (case save_body df w of
        (Inl e, w1) \<Rightarrow>
          (if is_Exception e then (Inr (), print (CouldNotSave e) w1) else (Inl e, w1))
      | (Inr u, w1) \<Rightarrow> (Inr (), w1))"

text \<open>\<open>test_custom_text\<close>. The one character outside ASCII is written as its UTF-8 bytes.\<close>

definition custom_text :: string where
  "custom_text =
     ''Rohit Sharma, a cricketing genius known for his effortless elegance, destructive batting, and record-breaking centuries. His leadership, poise, and consistency have solidified him as one of the game''
     @ [char_of (0xE2 :: nat), char_of (0x80 :: nat), char_of (0x99 :: nat)]
     @ ''s finest, inspiring millions with each powerful stroke and calculated innings.''"

fun custom_loop :: "explain \<Rightarrow> span list \<Rightarrow> world \<Rightarrow> world" where
  "custom_loop explain [] w = w"
| "custom_loop explain (ent # ents) w =
     custom_loop explain ents
       (print (CustomEntityLine (span_text ent) (span_label ent) (explain (span_label ent))) w)"

definition test_custom_text :: "nlp \<Rightarrow> explain \<Rightarrow> world \<Rightarrow> world" where
  "test_custom_text nlp explain w =
     (let w1 = print TestingHeader w;
          w2 = print (Rule 30) w1;
          w3 = print (TextLine custom_text) w2;
          w4 = print EntitiesFoundHeader w3;
          ents = nlp custom_text
      in if ents \<noteq> [] then custom_loop explain ents w4
         else print NoEntitiesTryAdding w4)"

text \<open>
  \<open>main\<close>, from the point where the model is loaded. \<open>main_from\<close> is the rest of \<open>main\<close>
  after \<open>sample_texts\<close> has been assigned, so that it can be read for any list of texts.
\<close>

definition main_from :: "nlp \<Rightarrow> explain \<Rightarrow> string list \<Rightarrow> world \<Rightarrow> (exn + unit) \<times> world" where
  "main_from nlp explain sample_texts w =
     (let w1 = print (SampleTexts (length sample_texts)) w
      in case analyze_texts nlp explain sample_texts w1 of
           (results, w2) \<Rightarrow>
             if results \<noteq> [] then
               (case create_analysis_report explain results w2 of
                  (Inl e, w3) \<Rightarrow> (Inl e, w3)
                | (Inr r, w3) \<Rightarrow>
                    (case (case r of
                             Some (df, entity_counts) \<Rightarrow> save_results df w3
                           | None \<Rightarrow> (Inr (), w3)) of
                       (Inl e, w4) \<Rightarrow> (Inl e, w4)
                     | (Inr u, w4) \<Rightarrow>
                         (let w5 = test_custom_text nlp explain w4;
                              w6 = print ProjectCompleted w5;
                              w7 = print CheckFiles w6;
                              w8 = print (FileName ''ner_results.csv'') w7;
                              w9 = print (FileName ''ner_summary_report.txt'') w8
                          in (Inr (), w9))))
             else (Inr (), print NoEntitiesInTexts w2))"

definition main :: "nlp \<Rightarrow> explain \<Rightarrow> world \<Rightarrow> (exn + unit) \<times> world" where
  "main nlp explain w = main_from nlp explain get_sample_texts w"

section \<open>Auxiliary definitions used in the statements\<close>

text \<open>The dictionary built for one span, and the row appended for one entity of text \<open>i\<close>.\<close>

definition entity_of :: "explain \<Rightarrow> span \<Rightarrow> entity" where
  "entity_of explain ent =
     \<lparr>ent_text = span_text ent, ent_label = span_label ent,
      ent_description = explain (span_label ent)\<rparr>"

definition row_of :: "nat \<Rightarrow> string \<Rightarrow> entity \<Rightarrow> result" where
  "row_of i text entity =
     \<lparr>text_id = i + 1, original_text = text, entity_text = ent_text entity,
      entity_type = ent_label entity, description = ent_description entity\<rparr>"

text \<open>The rows contributed by the texts when the first of them has index \<open>i\<close>.\<close>

definition rows_from :: "nlp \<Rightarrow> explain \<Rightarrow> nat \<Rightarrow> string list \<Rightarrow> result list" where
  "rows_from nlp explain i texts =
     concat (map (\<lambda>(j, text). map (row_of j text) (extract_entities nlp explain text))
                 (enumerate i texts))"

text \<open>
  The double computed by \<open>(count / total) * 100\<close>, and the bound on its relative distance
  from the exact percentage: each of the two operations is off by at most one part in
  \<open>2^53\<close> of its exact result.
\<close>

definition percent_of :: "nat \<Rightarrow> nat \<Rightarrow> rat" where
  "percent_of count n = float_mul (fl (of_nat count / of_nat n)) 100"

definition unit_roundoff :: rat where
  "unit_roundoff = 1 / 2 ^ 53"

definition percent_tolerance :: rat where
  "percent_tolerance = 2 * unit_roundoff + unit_roundoff ^ 2"

text \<open>What was printed between two worlds, and the data carried by the lines of interest.\<close>

definition printed_by :: "world \<Rightarrow> world \<Rightarrow> console_line list" where
  "printed_by w w' = drop (length (console w)) (console w')"

fun breakdown_of :: "console_line \<Rightarrow> (string \<times> nat \<times> rat) list" where
  "breakdown_of (BreakdownLine etype count percentage descr) = [(etype, count, percentage)]"
| "breakdown_of _ = []"

definition breakdown_lines :: "console_line list \<Rightarrow> (string \<times> nat \<times> rat) list" where
  "breakdown_lines ls = concat (map breakdown_of ls)"

fun common_of :: "console_line \<Rightarrow> (string \<times> nat) list" where
  "common_of (MostCommonLine entity count) = [(entity, count)]"
| "common_of _ = []"

definition common_lines :: "console_line list \<Rightarrow> (string \<times> nat) list" where
  "common_lines ls = concat (map common_of ls)"

text \<open>The breakdown of the summary file on disk (empty when the file is not there).\<close>

definition written_breakdown :: "world \<Rightarrow> (string \<times> nat \<times> rat) list" where
  "written_breakdown w =
     (case files w ''ner_summary_report.txt'' of
        Some (TextFile rep) \<Rightarrow> rep_breakdown rep
      | _ \<Rightarrow> [])"

text \<open>The lines \<open>create_analysis_report\<close> prints for a non-empty list of results.\<close>

definition summary_lines :: "explain \<Rightarrow> result list \<Rightarrow> console_line list" where
  "summary_lines explain results =
     [SummaryHeader, Rule 40,
      TotalTexts (nunique (map text_id results)),
      TotalEntities (length results),
      UniqueEntities (nunique (map entity_text results)),
      EntityTypes (nunique (map entity_type results)),
      AvgEntitiesPerText
        (fl (of_nat (length results) / of_nat (nunique (map text_id results)))),
      BreakdownHeader]
     @ map (\<lambda>(etype, count).
              BreakdownLine etype count (percent_of count (length results)) (explain etype))
           (value_counts (map entity_type results))
     @ [MostCommonHeader]
     @ map (\<lambda>(entity, count). MostCommonLine entity count)
           (take 5 (common_entities results))"

text \<open>The summary written by \<open>save_results\<close> for a non-empty frame at a given date.\<close>

definition report_of :: "string \<Rightarrow> result list \<Rightarrow> summary_report" where
  "report_of date df =
     \<lparr>analysis_date = date,
      rep_total_texts = nunique (map text_id df),
      rep_total_entities = length df,
      rep_unique_entities = nunique (map entity_text df),
      rep_entity_types = nunique (map entity_type df),
      rep_breakdown =
        map (\<lambda>(etype, count). (etype, count, percent_of count (length df)))
            (value_counts (map entity_type df))\<rparr>"

text \<open>
  Every failure the world holds for the two output files is an exception that
  \<open>except Exception\<close> catches (as \<open>OSError\<close> and its subclasses are).
\<close>

definition ordinary_failures :: "world \<Rightarrow> bool" where
  "ordinary_failures w =
     list_all (\<lambda>name. case write_error w name of None \<Rightarrow> True | Some e \<Rightarrow> is_Exception e)
       [''ner_results.csv'', ''ner_summary_report.txt'']"

section \<open>Test doubles\<close>

definition scenario_text :: string where
  "scenario_text =
     ''Barack Obama was the 44th President of the United States and was born in Hawaii.''"

definition stub_nlp :: nlp where
  "stub_nlp text =
     [\<lparr>span_text = ''Barack Obama'', span_label = ''PERSON''\<rparr>,
      \<lparr>span_text = ''44th'', span_label = ''ORDINAL''\<rparr>,
      \<lparr>span_text = ''the United States'', span_label = ''GPE''\<rparr>,
      \<lparr>span_text = ''Hawaii'', span_label = ''GPE''\<rparr>]"

definition stub_explain :: explain where
  "stub_explain l =
     (if l = ''PERSON'' then Some ''People, including fictional''
      else if l = ''GPE'' then Some ''Countries, cities, states''
      else None)"

definition stub_results :: "result list" where
  "stub_results = map (row_of 0 scenario_text) (map (entity_of stub_explain) (stub_nlp scenario_text))"

text \<open>A frame with eleven distinct entity texts, three of them repeated.\<close>

definition busy_nlp :: nlp where
  "busy_nlp text =
     map (\<lambda>s. \<lparr>span_text = s, span_label = ''GPE''\<rparr>)
       [''k'', ''a'', ''b'', ''c'', ''d'', ''e'', ''f'', ''g'', ''h'', ''i'', ''j'', ''k'',
        ''a'', ''k'']"

definition busy_results :: "result list" where
  "busy_results = map (row_of 0 ''t'') (map (entity_of stub_explain) (busy_nlp ''t''))"

text \<open>A world with an empty console and disk in which every write succeeds.\<close>

definition w0 :: world where
  "w0 = \<lparr>console = [], files = (\<lambda>name. None), write_log = [],
         write_error = (\<lambda>name. None), opened_before_failure = (\<lambda>name. False),
         now = ''2024-01-01 00:00:00''\<rparr>"

text \<open>Worlds in which writing the CSV file, or the summary file, is refused.\<close>

definition w_csv_denied :: world where
  "w_csv_denied =
     w0\<lparr>write_error :=
           (\<lambda>name. if name = ''ner_results.csv'' then Some (OSError ''Permission denied'')
                    else None)\<rparr>"

definition w_summary_denied :: world where
  "w_summary_denied =
     w0\<lparr>write_error :=
           (\<lambda>name. if name = ''ner_summary_report.txt'' then Some (OSError ''Permission denied'')
                    else None)\<rparr>"

text \<open>
  Worlds in which an earlier run left both files on disk and the disk fills up while the
  CSV file, or the summary file, is being written.
\<close>

definition w_earlier_run :: world where
  "w_earlier_run =
     w0\<lparr>files :=
           (\<lambda>name. if name = ''ner_results.csv'' then Some (CsvFile csv_header [])
                    else if name = ''ner_summary_report.txt''
                         then Some (TextFile (report_of ''2023-12-31 00:00:00'' stub_results))
                         else None)\<rparr>"

definition w_csv_disk_full :: world where
  "w_csv_disk_full =
     w_earlier_run
       \<lparr>write_error :=
          (\<lambda>name. if name = ''ner_results.csv'' then Some (OSError ''No space left on device'')
                   else None),
        opened_before_failure := (\<lambda>name. True)\<rparr>"

definition w_summary_disk_full :: world where
  "w_summary_disk_full =
     w_earlier_run
       \<lparr>write_error :=
          (\<lambda>name. if name = ''ner_summary_report.txt''
                   then Some (OSError ''No space left on device'')
                   else None),
        opened_before_failure := (\<lambda>name. True)\<rparr>"

text \<open>A frame with three entity types, one row each.\<close>

definition thirds_nlp :: nlp where
  "thirds_nlp text =
     [\<lparr>span_text = ''Google'', span_label = ''ORG''\<rparr>,
      \<lparr>span_text = ''Larry Page'', span_label = ''PERSON''\<rparr>,
      \<lparr>span_text = ''Paris'', span_label = ''GPE''\<rparr>]"

definition thirds_results :: "result list" where
  "thirds_results = map (row_of 0 ''t'') (map (entity_of stub_explain) (thirds_nlp ''t''))"

section \<open>Rounding\<close>

lemma round_half_even_error: "\<bar>of_int (round_half_even y) - y\<bar> \<le> 1 / 2"
proof -
  have "of_int \<lfloor>y\<rfloor> \<le> y" "y < of_int \<lfloor>y\<rfloor> + 1"
    by linarith+
  then show ?thesis
    by (auto simp: round_half_even_def Let_def)
qed

lemma binary_exponent_bounds:
  assumes "0 < x"
  shows "2 powi (binary_exponent x) \<le> x" and "x < 2 powi (binary_exponent x + 1)"
proof -
  obtain p q where pq: "quotient_of x = (p, q)" by (cases "quotient_of x")
  then have q: "0 < q" and x: "x = of_int p / of_int q"
    by (simp_all add: quotient_of_denom_pos quotient_of_div)
  with assms have p: "0 < p"
    by (simp add: zero_less_divide_iff)
  define bp bq where "bp = bitlen p" and "bq = bitlen q"
  from bitlen_bounds [OF p] bitlen_bounds [OF q]
  have pb: "2 ^ nat (bp - 1) \<le> p" "p < 2 ^ nat bp"
    and qb: "2 ^ nat (bq - 1) \<le> q" "q < 2 ^ nat bq"
    by (simp_all add: bp_def bq_def)
  have bp1: "1 \<le> bp" and bq1: "1 \<le> bq"
    using p q by (simp_all add: bp_def bq_def bitlen_alt_def)
  have pw: "(2::rat) powi k = 2 ^ nat k" if "0 \<le> k" for k
    using that by (simp add: power_int_def)
  have "(of_int (2 ^ nat (bp - 1)) :: rat) \<le> of_int p" "(of_int p :: rat) < of_int (2 ^ nat bp)"
    using pb by (simp_all only: of_int_le_iff of_int_less_iff)
  then have P: "(2::rat) powi (bp - 1) \<le> of_int p" "of_int p < (2::rat) powi bp"
    using bp1 by (simp_all add: pw)
  have "(of_int (2 ^ nat (bq - 1)) :: rat) \<le> of_int q" "(of_int q :: rat) < of_int (2 ^ nat bq)"
    using qb by (simp_all only: of_int_le_iff of_int_less_iff)
  then have Q: "(2::rat) powi (bq - 1) \<le> of_int q" "of_int q < (2::rat) powi bq"
    using bq1 by (simp_all add: pw)
  have qpos: "(0::rat) < of_int q" and ppos: "(0::rat) < of_int p"
    using p q by simp_all
  have "(2::rat) powi (bp - bq - 1) = 2 powi (bp - 1) / 2 powi bq"
    using power_int_diff [of "2::rat" "bp - 1" bq] by (simp add: algebra_simps)
  also have "\<dots> \<le> of_int p / 2 powi bq"
    using P(1) by (simp add: divide_right_mono)
  also have "\<dots> < of_int p / of_int q"
    using Q(2) qpos ppos by (simp add: divide_strict_left_mono)
  finally have lower: "2 powi (bp - bq - 1) < x"
    by (simp add: x)
  have "x = of_int p / of_int q" by (rule x)
  also have "\<dots> < 2 powi bp / of_int q"
    using P(2) qpos by (simp add: divide_strict_right_mono)
  also have "\<dots> \<le> 2 powi bp / 2 powi (bq - 1)"
    using Q(1) qpos by (intro divide_left_mono) simp_all
  also have "\<dots> = 2 powi (bp - bq + 1)"
    using power_int_diff [of "2::rat" bp "bq - 1"] by (simp add: algebra_simps)
  finally have upper: "x < 2 powi (bp - bq + 1)" .
  show "2 powi (binary_exponent x) \<le> x"
    using lower by (simp add: binary_exponent_def pq Let_def bp_def bq_def)
  show "x < 2 powi (binary_exponent x + 1)"
    using upper by (auto simp add: binary_exponent_def pq Let_def bp_def bq_def not_le)
qed


lemma fl_error:
  assumes "0 \<le> x"
  shows "\<bar>fl x - x\<bar> \<le> x * unit_roundoff"
proof (cases "x = 0")
  case True
  then show ?thesis by (simp add: fl_def)
next
  case False
  with assms have pos: "0 < x" by simp
  define e where "e = binary_exponent x"
  define ulp :: rat where "ulp = 2 powi (e - 52)"
  define r where "r = round_half_even (x / ulp)"
  have ulp_pos: "0 < ulp" by (simp add: ulp_def)
  have fl: "fl x = of_int r * ulp"
    using pos by (simp add: fl_def Let_def r_def ulp_def e_def)
  have "fl x - x = ulp * (of_int r - x / ulp)"
    using ulp_pos by (simp add: fl field_simps)
  then have "\<bar>fl x - x\<bar> = ulp * \<bar>of_int r - x / ulp\<bar>"
    using ulp_pos by (simp add: abs_mult)
  also have "\<dots> \<le> ulp * (1 / 2)"
    using ulp_pos round_half_even_error [of "x / ulp"]
    by (intro mult_left_mono) (simp_all add: r_def)
  also have "\<dots> = 2 powi e * unit_roundoff"
    using power_int_diff [of "2::rat" e 52] by (simp add: ulp_def unit_roundoff_def)
  also have "\<dots> \<le> x * unit_roundoff"
    using binary_exponent_bounds(1) [OF pos]
    by (intro mult_right_mono) (simp_all add: e_def unit_roundoff_def)
  finally show ?thesis .
qed

lemma fl_nonneg: "0 \<le> x \<Longrightarrow> 0 \<le> fl x"
proof -
  assume x: "0 \<le> x"
  have "unit_roundoff \<le> 1" by (simp add: unit_roundoff_def)
  with x have "x * unit_roundoff \<le> x"
    using mult_left_mono [of unit_roundoff 1 x] by simp
  with fl_error [OF x] show ?thesis by linarith
qed

lemma percentage_error:
  assumes "0 \<le> a"
  shows "\<bar>fl (fl a * 100) - a * 100\<bar> \<le> a * 100 * percent_tolerance"
proof -
  define u where "u = unit_roundoff"
  have u: "0 \<le> u" by (simp add: u_def unit_roundoff_def)
  define q where "q = fl a"
  have q0: "0 \<le> q" unfolding q_def using assms by (rule fl_nonneg)
  have e1: "\<bar>q - a\<bar> \<le> a * u"
    unfolding q_def u_def using assms by (rule fl_error)
  then have qa: "q \<le> a * (1 + u)" by (simp add: algebra_simps)
  have "\<bar>fl (q * 100) - q * 100\<bar> \<le> q * 100 * u"
    unfolding u_def using q0 by (intro fl_error) simp
  also have "\<dots> \<le> a * (1 + u) * 100 * u"
    using qa u by (intro mult_right_mono) simp_all
  finally have e2: "\<bar>fl (q * 100) - q * 100\<bar> \<le> a * (1 + u) * 100 * u" .
  have "q * 100 - a * 100 = (q - a) * 100"
    by (simp add: algebra_simps)
  then have scaled: "\<bar>q * 100 - a * 100\<bar> = \<bar>q - a\<bar> * 100"
    by (simp only: abs_mult)
  have "\<bar>fl (q * 100) - a * 100\<bar> \<le> \<bar>fl (q * 100) - q * 100\<bar> + \<bar>q * 100 - a * 100\<bar>"
    by linarith
  also have "\<dots> = \<bar>fl (q * 100) - q * 100\<bar> + \<bar>q - a\<bar> * 100"
    by (simp only: scaled)
  also have "\<dots> \<le> a * (1 + u) * 100 * u + a * u * 100"
    using e2 mult_right_mono [OF e1, of 100] by (intro add_mono) simp_all
  also have "\<dots> = a * 100 * (2 * u + u ^ 2)"
    by (simp add: algebra_simps power2_eq_square)
  finally show ?thesis
    by (simp add: q_def percent_tolerance_def u_def)
qed

lemma percent_of_error:
  "\<bar>percent_of count n - of_nat count / of_nat n * 100\<bar>
     \<le> of_nat count / of_nat n * 100 * percent_tolerance"
  unfolding percent_of_def float_mul_def by (rule percentage_error) simp

lemma fl_4: "fl 4 = 4"
  by code_simp

section \<open>The analyzer\<close>

lemma fold_snoc_map: "fold (\<lambda>x acc. acc @ [f x]) xs acc = acc @ map f xs"
  by (induction xs arbitrary: acc) simp_all

lemma extract_entities_map:
  "extract_entities nlp explain text = map (entity_of explain) (nlp text)"
  unfolding extract_entities_def entity_of_def by (simp add: fold_snoc_map)

lemma entity_loop_fst:
  "fst (entity_loop i text entities (acc, w)) = acc @ map (row_of i text) entities"
  by (induction entities arbitrary: acc w) (simp_all add: row_of_def)

lemma rows_from_Cons:
  "rows_from nlp explain i (t # ts) =
     map (row_of i t) (extract_entities nlp explain t) @ rows_from nlp explain (Suc i) ts"
  by (simp add: rows_from_def)

lemma text_loop_fst:
  "fst (text_loop nlp explain i texts (acc, w)) = acc @ rows_from nlp explain i texts"
proof (induction texts arbitrary: i acc w)
  case Nil
  show ?case by (simp add: rows_from_def)
next
  case (Cons t ts)
  define w1 where "w1 = print EntitiesHeader (print (TextLine t) (print (TextHeader (i + 1)) w))"
  define st where "st = (if extract_entities nlp explain t \<noteq> []
      then entity_loop i t (extract_entities nlp explain t) (acc, w1)
      else (acc, print NoEntitiesFound w1))"
  have "fst st = acc @ map (row_of i t) (extract_entities nlp explain t)"
    by (simp add: st_def entity_loop_fst)
  moreover have "text_loop nlp explain i (t # ts) (acc, w) =
      text_loop nlp explain (i + 1) ts (fst st, snd st)"
    by (simp add: st_def w1_def Let_def)
  ultimately show ?case
    by (simp add: Cons.IH rows_from_Cons)
qed

lemma analyze_texts_fst:
  "fst (analyze_texts nlp explain texts w) = rows_from nlp explain 0 texts"
  using text_loop_fst [of nlp explain 0 texts "[]"]
  by (simp add: analyze_texts_def split: prod.splits) (metis fst_conv)

lemma length_rows_from:
  "length (rows_from nlp explain i texts) = sum_list (map (\<lambda>t. length (nlp t)) texts)"
  by (induction texts arbitrary: i) (simp_all add: rows_from_def extract_entities_map)

lemma text_id_rows_from:
  "map text_id (rows_from nlp explain i texts) =
     concat (map (\<lambda>(j, t). replicate (length (nlp t)) (j + 1)) (enumerate i texts))"
  by (induction texts arbitrary: i)
     (simp_all add: rows_from_def row_of_def map_replicate_const comp_def extract_entities_map)

lemma rows_from_consistent:
  "r \<in> set (rows_from nlp explain i texts) \<Longrightarrow>
     i < text_id r \<and> text_id r \<le> i + length texts \<and>
     original_text r = texts ! (text_id r - 1 - i) \<and>
     description r = explain (entity_type r)"
proof (induction texts arbitrary: i)
  case Nil
  then show ?case by (simp add: rows_from_def)
next
  case (Cons t ts)
  from Cons.prems consider
      (head) "r \<in> set (map (row_of i t) (extract_entities nlp explain t))"
    | (tail) "r \<in> set (rows_from nlp explain (Suc i) ts)"
    unfolding rows_from_Cons by auto
  then show ?case
  proof cases
    case head
    then show ?thesis
      by (auto simp: row_of_def extract_entities_map entity_of_def)
  next
    case tail
    from Cons.IH [OF tail] have ih: "Suc i < text_id r" "text_id r \<le> Suc i + length ts"
      "original_text r = ts ! (text_id r - 1 - Suc i)" "description r = explain (entity_type r)"
      by simp_all
    from ih(1) have "text_id r - 1 - i = Suc (text_id r - 1 - Suc i)" by arith
    with ih show ?thesis by simp
  qed
qed

lemma sorted_text_id_rows_from: "sorted (map text_id (rows_from nlp explain i texts))"
proof (induction texts arbitrary: i)
  case Nil
  show ?case by (simp add: rows_from_def)
next
  case (Cons t ts)
  have "sorted (map text_id (map (row_of i t) (extract_entities nlp explain t)))"
    by (simp add: row_of_def comp_def sorted_wrt_iff_nth_less)
  moreover have "\<forall>r \<in> set (rows_from nlp explain (Suc i) ts). Suc i < text_id r"
    using rows_from_consistent by blast
  ultimately show ?case
    unfolding rows_from_Cons by (auto simp: sorted_append Cons.IH row_of_def)
qed

lemma entity_loop_console:
  "\<exists>ls. snd (entity_loop i t entities (acc, w)) = w\<lparr>console := console w @ ls\<rparr>"
proof (induction entities arbitrary: acc w)
  case Nil
  have "snd (entity_loop i t [] (acc, w)) = w\<lparr>console := console w @ []\<rparr>" by simp
  then show ?case by blast
next
  case (Cons entity entities)
  let ?l = "EntityLine (ent_text entity) (ent_label entity)"
  from Cons.IH obtain ls where
    "snd (entity_loop i t (entity # entities) (acc, w)) =
       (print ?l w)\<lparr>console := console (print ?l w) @ ls\<rparr>"
    by (metis entity_loop.simps(2))
  then have "snd (entity_loop i t (entity # entities) (acc, w)) =
       w\<lparr>console := console w @ (?l # ls)\<rparr>"
    by (simp add: print_def)
  then show ?case by blast
qed

lemma text_loop_console:
  "\<exists>ls. snd (text_loop nlp explain i texts (acc, w)) = w\<lparr>console := console w @ ls\<rparr>"
proof (induction texts arbitrary: i acc w)
  case Nil
  have "snd (text_loop nlp explain i [] (acc, w)) = w\<lparr>console := console w @ []\<rparr>" by simp
  then show ?case by blast
next
  case (Cons t ts)
  define hd_lines where "hd_lines = [TextHeader (i + 1), TextLine t, EntitiesHeader]"
  define w1 where "w1 = print EntitiesHeader (print (TextLine t) (print (TextHeader (i + 1)) w))"
  define st where "st = (if extract_entities nlp explain t \<noteq> []
      then entity_loop i t (extract_entities nlp explain t) (acc, w1)
      else (acc, print NoEntitiesFound w1))"
  have w1: "w1 = w\<lparr>console := console w @ hd_lines\<rparr>"
    by (simp add: w1_def hd_lines_def print_def)
  obtain ls1 where "snd st = w1\<lparr>console := console w1 @ ls1\<rparr>"
  proof (cases "extract_entities nlp explain t \<noteq> []")
    case True
    with entity_loop_console [of i t "extract_entities nlp explain t" acc w1] that
    show ?thesis by (auto simp: st_def)
  next
    case False
    then have "snd st = w1\<lparr>console := console w1 @ [NoEntitiesFound]\<rparr>"
      by (simp add: st_def print_def)
    with that show ?thesis by blast
  qed
  then have st: "snd st = w\<lparr>console := console w @ (hd_lines @ ls1)\<rparr>"
    by (simp add: w1)
  have step: "text_loop nlp explain i (t # ts) (acc, w) =
      text_loop nlp explain (i + 1) ts (fst st, snd st)"
    by (simp add: st_def w1_def Let_def)
  from Cons.IH [of "i + 1" "fst st" "snd st"] obtain ls2 where
    "snd (text_loop nlp explain i (t # ts) (acc, w)) = (snd st)\<lparr>console := console (snd st) @ ls2\<rparr>"
    unfolding step by blast
  then have "snd (text_loop nlp explain i (t # ts) (acc, w)) =
      w\<lparr>console := console w @ (hd_lines @ ls1 @ ls2)\<rparr>"
    by (simp add: st)
  then show ?case by blast
qed

lemma analyze_texts_console:
  "\<exists>ls. snd (analyze_texts nlp explain texts w) = w\<lparr>console := console w @ ls\<rparr>"
proof -
  define w1 where "w1 = print (Rule 50) (print AnalyzingTexts w)"
  obtain ls where ls: "snd (text_loop nlp explain 0 texts ([], w1)) = w1\<lparr>console := console w1 @ ls\<rparr>"
    using text_loop_console by blast
  define n where "n = length (fst (text_loop nlp explain 0 texts ([], w1)))"
  have w1: "w1 = w\<lparr>console := console w @ [AnalyzingTexts, Rule 50]\<rparr>"
    by (simp add: w1_def print_def)
  have "snd (analyze_texts nlp explain texts w) =
      print (TotalExtracted n) (snd (text_loop nlp explain 0 texts ([], w1)))"
    by (simp add: analyze_texts_def w1_def n_def split: prod.splits)
  then have "snd (analyze_texts nlp explain texts w) =
      print (TotalExtracted n) (w1\<lparr>console := console w1 @ ls\<rparr>)"
    by (simp only: ls)
  then have "snd (analyze_texts nlp explain texts w) =
      w\<lparr>console := console w @ ([AnalyzingTexts, Rule 50] @ ls @ [TotalExtracted n])\<rparr>"
    by (simp add: w1 print_def)
  then show ?thesis by blast
qed

text \<open>
  Claim C1. For every sequence of texts and every extractor, the list returned by
  \<open>analyze_texts\<close> has as many rows as the extractor returned spans over all texts; its
  \<open>text_id\<close> column is non-decreasing; and that column is, text by text, the 1-based
  position of the text repeated once per span found in it.
\<close>

theorem analyze_texts_size_and_text_ids:
  "length (fst (analyze_texts nlp explain texts w)) = sum_list (map (\<lambda>t. length (nlp t)) texts)
   \<and> sorted (map text_id (fst (analyze_texts nlp explain texts w)))
   \<and> map text_id (fst (analyze_texts nlp explain texts w)) =
       concat (map (\<lambda>(i, t). replicate (length (nlp t)) (i + 1)) (enumerate 0 texts))"
proof -
  have size: "length (fst (analyze_texts nlp explain texts w)) =
      sum_list (map (\<lambda>t. length (nlp t)) texts)"
    by (simp only: analyze_texts_fst length_rows_from)
  have mono: "sorted (map text_id (fst (analyze_texts nlp explain texts w)))"
    by (simp only: analyze_texts_fst sorted_text_id_rows_from)
  have ids: "map text_id (fst (analyze_texts nlp explain texts w)) =
      concat (map (\<lambda>(i, t). replicate (length (nlp t)) (i + 1)) (enumerate 0 texts))"
    by (simp only: analyze_texts_fst text_id_rows_from)
  from size mono ids show ?thesis by blast
qed

text \<open>
  Claim C8. Every row returned by \<open>analyze_texts\<close> has a \<open>text_id\<close> between 1 and the
  number of texts, carries the full text at that 1-based position as \<open>original_text\<close>, and
  carries \<open>explain\<close> of its \<open>entity_type\<close> as \<open>description\<close>; hence two rows with the same
  \<open>entity_type\<close> have the same \<open>description\<close>.
\<close>

theorem analyze_texts_rows_consistent:
  "\<forall>r \<in> set (fst (analyze_texts nlp explain texts w)).
      1 \<le> text_id r \<and> text_id r \<le> length texts
      \<and> original_text r = texts ! (text_id r - 1)
      \<and> description r = explain (entity_type r)
      \<and> (\<forall>r' \<in> set (fst (analyze_texts nlp explain texts w)).
            entity_type r' = entity_type r \<longrightarrow> description r' = description r)"
proof
  fix r
  assume r: "r \<in> set (fst (analyze_texts nlp explain texts w))"
  have each: "i < text_id x \<and> text_id x \<le> i + length texts
      \<and> original_text x = texts ! (text_id x - 1 - i) \<and> description x = explain (entity_type x)"
    if "x \<in> set (rows_from nlp explain i texts)" for x i
    using that by (rule rows_from_consistent)
  have "\<forall>r' \<in> set (fst (analyze_texts nlp explain texts w)).
          entity_type r' = entity_type r \<longrightarrow> description r' = description r"
    using r each [of _ 0] by (simp add: analyze_texts_fst)
  moreover have "1 \<le> text_id r \<and> text_id r \<le> length texts
      \<and> original_text r = texts ! (text_id r - 1) \<and> description r = explain (entity_type r)"
    using r each [of r 0] by (simp add: analyze_texts_fst)
  ultimately show "1 \<le> text_id r \<and> text_id r \<le> length texts
      \<and> original_text r = texts ! (text_id r - 1)
      \<and> description r = explain (entity_type r)
      \<and> (\<forall>r' \<in> set (fst (analyze_texts nlp explain texts w)).
            entity_type r' = entity_type r \<longrightarrow> description r' = description r)"
    by blast
qed

theorem analyze_texts_rows_consistent_witness:
  "fst (analyze_texts stub_nlp stub_explain [scenario_text] w0) ! 3
     \<in> set (fst (analyze_texts stub_nlp stub_explain [scenario_text] w0))
   \<and> fst (analyze_texts stub_nlp stub_explain [scenario_text] w0) ! 2
     \<in> set (fst (analyze_texts stub_nlp stub_explain [scenario_text] w0))
   \<and> entity_type (fst (analyze_texts stub_nlp stub_explain [scenario_text] w0) ! 2) =
     entity_type (fst (analyze_texts stub_nlp stub_explain [scenario_text] w0) ! 3)
   \<and> 1 \<le> text_id (fst (analyze_texts stub_nlp stub_explain [scenario_text] w0) ! 3)
   \<and> text_id (fst (analyze_texts stub_nlp stub_explain [scenario_text] w0) ! 3)
       \<le> length [scenario_text]
   \<and> original_text (fst (analyze_texts stub_nlp stub_explain [scenario_text] w0) ! 3) =
       [scenario_text] ! (text_id (fst (analyze_texts stub_nlp stub_explain [scenario_text] w0) ! 3) - 1)
   \<and> description (fst (analyze_texts stub_nlp stub_explain [scenario_text] w0) ! 3) =
       stub_explain (entity_type (fst (analyze_texts stub_nlp stub_explain [scenario_text] w0) ! 3))
   \<and> description (fst (analyze_texts stub_nlp stub_explain [scenario_text] w0) ! 2) =
       description (fst (analyze_texts stub_nlp stub_explain [scenario_text] w0) ! 3)"
proof -
  let ?R = "fst (analyze_texts stub_nlp stub_explain [scenario_text] w0)"
  have m3: "?R ! 3 \<in> set ?R" by code_simp
  have m2: "?R ! 2 \<in> set ?R" by code_simp
  have ty: "entity_type (?R ! 2) = entity_type (?R ! 3)" by code_simp
  note inst = analyze_texts_rows_consistent
    [of stub_nlp stub_explain "[scenario_text]" w0, THEN bspec, OF m3]
  note c1 = inst [THEN conjunct1]
  note c2 = inst [THEN conjunct2, THEN conjunct1]
  note c3 = inst [THEN conjunct2, THEN conjunct2, THEN conjunct1]
  note c4 = inst [THEN conjunct2, THEN conjunct2, THEN conjunct2, THEN conjunct1]
  note c5 = inst [THEN conjunct2, THEN conjunct2, THEN conjunct2, THEN conjunct2,
                  THEN bspec, OF m2, THEN mp, OF ty]
  from m3 m2 ty c1 c2 c3 c4 c5 show ?thesis by (intro conjI)
qed

section \<open>Counting values\<close>

lemma set_first_seen: "set (first_seen xs) = set xs"
  by (simp add: first_seen_def)

lemma distinct_first_seen: "distinct (first_seen xs)"
  by (simp add: first_seen_def)

lemma set_value_counts: "set (value_counts xs) = (\<lambda>k. (k, count_list xs k)) ` set xs"
  by (simp add: value_counts_def set_first_seen)

lemma value_counts_count:
  "(k, c) \<in> set (value_counts xs) \<Longrightarrow> k \<in> set xs \<and> c = count_list xs k \<and> 0 < c"
proof -
  assume "(k, c) \<in> set (value_counts xs)"
  then have k: "k \<in> set xs" and c: "c = count_list xs k"
    by (auto simp: set_value_counts)
  from k have "0 < count_list xs k"
    using count_list_0_iff [of xs k] by simp
  with k c show ?thesis by simp
qed

lemma keys_value_counts: "set (map fst (value_counts xs)) = set xs"
  by (force simp: set_value_counts)

lemma distinct_keys_value_counts: "distinct (map fst (value_counts xs))"
proof -
  let ?ys = "map (\<lambda>k. (k, count_list xs k)) (first_seen xs)"
  have "distinct (map fst ?ys)"
    by (simp add: comp_def distinct_first_seen)
  then have "distinct ?ys \<and> inj_on fst (set ?ys)"
    by (simp only: distinct_map)
  then have "distinct (sort_key (\<lambda>p. - int (snd p)) ?ys)
      \<and> inj_on fst (set (sort_key (\<lambda>p. - int (snd p)) ?ys))"
    by simp
  then show ?thesis
    unfolding value_counts_def by (simp only: distinct_map)
qed

lemma sum_list_insort_key:
  "sum_list (map g (insort_key f x ys)) = g x + sum_list (map g ys)"
  for g :: "'a \<Rightarrow> nat"
  by (induction ys) simp_all

lemma sum_list_sort_key:
  "sum_list (map g (sort_key f ys)) = sum_list (map g ys)"
  for g :: "'a \<Rightarrow> nat"
  by (induction ys) (simp_all add: sum_list_insort_key)

lemma sum_counts_value_counts: "sum_list (map snd (value_counts xs)) = length xs"
proof -
  have "sum_list (map snd (value_counts xs)) = sum_list (map (count_list xs) (first_seen xs))"
    by (simp add: value_counts_def sum_list_sort_key comp_def)
  also have "\<dots> = sum (count_list xs) (set (first_seen xs))"
    by (rule sum_list_distinct_conv_sum_set) (rule distinct_first_seen)
  also have "\<dots> = length xs"
    by (simp add: set_first_seen sum_count_set)
  finally show ?thesis .
qed

lemma descending_value_counts: "sorted_wrt (\<lambda>p q. snd q \<le> snd p) (value_counts xs)"
proof -
  have "sorted (map (\<lambda>p. - int (snd p)) (value_counts xs))"
    unfolding value_counts_def by (rule sorted_sort_key)
  then show ?thesis
    by (simp add: sorted_map)
qed

lemma length_value_counts: "length (value_counts xs) = nunique xs"
proof -
  have "length (value_counts xs) = length (remdups (rev xs))"
    by (simp add: value_counts_def first_seen_def)
  also have "\<dots> = card (set xs)"
    by (simp add: length_remdups_card_conv)
  finally show ?thesis
    by (simp add: nunique_def length_remdups_card_conv)
qed

lemma value_counts_groups:
  "distinct (map fst (value_counts (map f xs)))
   \<and> set (map fst (value_counts (map f xs))) = f ` set xs
   \<and> (\<forall>(k, c) \<in> set (value_counts (map f xs)). c = count_list (map f xs) k)
   \<and> sorted_wrt (\<lambda>p q. snd q \<le> snd p) (value_counts (map f xs))"
proof -
  have "set (map fst (value_counts (map f xs))) = f ` set xs"
    using keys_value_counts [of "map f xs"] by simp
  moreover have "\<forall>(k, c) \<in> set (value_counts (map f xs)). c = count_list (map f xs) k"
    using value_counts_count [of _ _ "map f xs"] by blast
  ultimately show ?thesis
    using distinct_keys_value_counts [of "map f xs"] descending_value_counts [of "map f xs"]
    by blast
qed

lemma top_dominates_rest:
  assumes "sorted_wrt (\<lambda>p q. snd q \<le> snd p) vc"
  shows "\<forall>p \<in> set (take n vc). \<forall>q \<in> set (drop n vc). snd q \<le> snd p"
proof -
  from assms have "sorted_wrt (\<lambda>p q. snd q \<le> snd p) (take n vc @ drop n vc)"
    by simp
  then show ?thesis
    unfolding sorted_wrt_append by blast
qed

section \<open>The reporter\<close>

lemma nunique_pos: "xs \<noteq> [] \<Longrightarrow> 0 < nunique xs"
  by (simp add: nunique_def length_remdups_card_conv card_gt_0_iff)

lemma breakdown_loop_ok:
  "0 < n \<Longrightarrow>
   breakdown_loop explain n vc w =
     (Inr (), w\<lparr>console := console w @
        map (\<lambda>(etype, count). BreakdownLine etype count (percent_of count n)
               (explain etype)) vc\<rparr>)"
proof (induction vc arbitrary: w)
  case Nil
  show ?case by simp
next
  case (Cons p vc)
  obtain etype c where p: "p = (etype, c)" by (cases p)
  from Cons.prems show ?case
    by (simp add: p truediv_def percent_of_def Cons.IH print_def)
qed

lemma common_loop_eq:
  "common_loop cs w =
     w\<lparr>console := console w @ map (\<lambda>(entity, count). MostCommonLine entity count) cs\<rparr>"
proof (induction cs arbitrary: w)
  case Nil
  show ?case by simp
next
  case (Cons p cs)
  obtain entity c where p: "p = (entity, c)" by (cases p)
  show ?case
    by (simp add: p Cons.IH print_def)
qed

lemma create_analysis_report_nonempty:
  assumes "results \<noteq> []"
  shows "create_analysis_report explain results w =
     (Inr (Some (results, value_counts (map entity_type results))),
      w\<lparr>console := console w @ summary_lines explain results\<rparr>)"
proof -
  from assms have t: "nunique (map text_id results) \<noteq> 0" and n: "0 < length results"
    using nunique_pos [of "map text_id results"] by simp_all
  from assms t show ?thesis
    unfolding create_analysis_report_def
    by (simp add: truediv_def Let_def breakdown_loop_ok [OF n] common_loop_eq print_def
        summary_lines_def)
qed

lemma printed_by_append: "printed_by w (w\<lparr>console := console w @ ls\<rparr>) = ls"
  by (simp add: printed_by_def)

lemma breakdown_lines_append:
  "breakdown_lines (xs @ ys) = breakdown_lines xs @ breakdown_lines ys"
  by (simp add: breakdown_lines_def)

lemma breakdown_lines_breakdown:
  "breakdown_lines (map (\<lambda>(etype, count). BreakdownLine etype count (f etype count) (g etype)) vc) =
     map (\<lambda>(etype, count). (etype, count, f etype count)) vc"
  by (induction vc) (auto simp: breakdown_lines_def)

lemma breakdown_lines_common:
  "breakdown_lines (map (\<lambda>(entity, count). MostCommonLine entity count) cs) = []"
  by (induction cs) (auto simp: breakdown_lines_def)

lemma common_lines_append:
  "common_lines (xs @ ys) = common_lines xs @ common_lines ys"
  by (simp add: common_lines_def)

lemma common_lines_breakdown:
  "common_lines (map (\<lambda>(etype, count). BreakdownLine etype count (f etype count) (g etype)) vc) = []"
  by (induction vc) (auto simp: common_lines_def)

lemma common_lines_common:
  "common_lines (map (\<lambda>(entity, count). MostCommonLine entity count) cs) = cs"
  by (induction cs) (auto simp: common_lines_def)

lemma breakdown_lines_summary:
  "breakdown_lines (summary_lines explain results) =
     map (\<lambda>(etype, count). (etype, count, percent_of count (length results)))
         (value_counts (map entity_type results))"
  unfolding summary_lines_def breakdown_lines_append
  by (simp only: breakdown_lines_breakdown breakdown_lines_common)
     (simp add: breakdown_lines_def)

lemma common_lines_summary:
  "common_lines (summary_lines explain results) = take 5 (common_entities results)"
  unfolding summary_lines_def common_lines_append
  by (simp only: common_lines_breakdown common_lines_common)
     (simp add: common_lines_def)

lemma exact_percentages_sum:
  "sum_list (map (\<lambda>(etype, count). of_nat count / of_nat n * 100) vc) =
     (of_nat (sum_list (map snd vc)) / of_nat n * 100 :: rat)"
  by (induction vc) (auto simp: add_divide_distrib distrib_right)

lemma exact_percentages_total:
  "xs \<noteq> [] \<Longrightarrow>
   sum_list (map (\<lambda>(etype, count). of_nat count / of_nat (length xs) * 100)
       (value_counts (map f xs))) = (100 :: rat)"
  by (simp only: exact_percentages_sum sum_counts_value_counts) simp

lemma percentages_sum_error:
  "\<bar>sum_list (map (\<lambda>(etype, count). percent_of count n) vc)
      - sum_list (map (\<lambda>(etype, count). of_nat count / of_nat n * 100) vc)\<bar>
     \<le> sum_list (map (\<lambda>(etype, count). of_nat count / of_nat n * 100) vc) * percent_tolerance"
proof (induction vc)
  case Nil
  show ?case by simp
next
  case (Cons p vc)
  obtain etype c where p: "p = (etype, c)" by (cases p)
  from Cons.IH percent_of_error [of c n] show ?case
    by (simp add: p distrib_right)
qed

lemma breakdown_entries_percentages:
  "map (\<lambda>(etype, count, percentage). percentage)
       (map (\<lambda>(etype, count). (etype, count, g count)) vc) =
     map (\<lambda>(etype, count). g count) vc"
  by (induction vc) auto

lemma breakdown_entries_exact:
  "map (\<lambda>(etype, count, percentage). h count)
       (map (\<lambda>(etype, count). (etype, count, g count)) vc) =
     map (\<lambda>(etype, count). h count) vc"
  by (induction vc) auto

lemma breakdown_entries_proj:
  "map (\<lambda>(etype, count, percentage). (etype, count))
       (map (\<lambda>(etype, count). (etype, count, g count)) vc) = vc"
  by (induction vc) auto

lemma breakdown_entries_keys:
  "map fst (map (\<lambda>(etype, count). (etype, count, g count)) vc) = map fst vc"
  by (induction vc) auto

lemma breakdown_entries_counts:
  "map (\<lambda>p. fst (snd p)) (map (\<lambda>(etype, count). (etype, count, g count)) vc) = map snd vc"
  by (induction vc) auto

section \<open>The persister\<close>

lemma report_loop_ok:
  "0 < n \<Longrightarrow>
   report_loop n vc s =
     Inr (s\<lparr>rep_breakdown := rep_breakdown s @
        map (\<lambda>(etype, count). (etype, count, percent_of count n)) vc\<rparr>)"
proof (induction vc arbitrary: s)
  case Nil
  show ?case by simp
next
  case (Cons p vc)
  obtain etype c where p: "p = (etype, c)" by (cases p)
  from Cons.prems show ?case
    by (simp add: p truediv_def percent_of_def Cons.IH)
qed

lemma save_body_csv_fails:
  "write_error w ''ner_results.csv'' = Some e \<Longrightarrow>
   save_body df w =
     (Inl e,
      w\<lparr>write_log := write_log w @ [''ner_results.csv''],
        files :=
          (if opened_before_failure w ''ner_results.csv''
           then (files w)(''ner_results.csv'' \<mapsto>
                   PartialFile (CsvFile (if df = [] then [] else csv_header) df))
           else files w)\<rparr>)"
  by (simp add: save_body_def to_csv_def write_file_def)

lemma save_body_empty:
  "write_error w ''ner_results.csv'' = None \<Longrightarrow>
   save_body [] w =
     (Inl (KeyError ''text_id''),
      w\<lparr>write_log := write_log w @ [''ner_results.csv''],
        files := (files w)(''ner_results.csv'' \<mapsto> CsvFile [] []),
        console := console w @ [SavedCsv]\<rparr>)"
  by (simp add: save_body_def to_csv_def write_file_def print_def)

lemma save_body_summary_fails:
  "write_error w ''ner_results.csv'' = None \<Longrightarrow> df \<noteq> [] \<Longrightarrow>
   write_error w ''ner_summary_report.txt'' = Some e \<Longrightarrow>
   save_body df w =
     (Inl e,
      w\<lparr>write_log := write_log w @ [''ner_results.csv'', ''ner_summary_report.txt''],
        files :=
          (if opened_before_failure w ''ner_summary_report.txt''
           then (files w)(''ner_results.csv'' \<mapsto> CsvFile csv_header df,
                          ''ner_summary_report.txt'' \<mapsto>
                            PartialFile (TextFile (report_of (now w) df)))
           else (files w)(''ner_results.csv'' \<mapsto> CsvFile csv_header df)),
        console := console w @ [SavedCsv]\<rparr>)"
  by (simp add: save_body_def to_csv_def write_file_def print_def report_loop_ok Let_def
      report_of_def)

lemma save_body_ok:
  "write_error w ''ner_results.csv'' = None \<Longrightarrow> df \<noteq> [] \<Longrightarrow>
   write_error w ''ner_summary_report.txt'' = None \<Longrightarrow>
   save_body df w =
     (Inr (),
      w\<lparr>write_log := write_log w @ [''ner_results.csv'', ''ner_summary_report.txt''],
        files := (files w)(''ner_results.csv'' \<mapsto> CsvFile csv_header df,
                          ''ner_summary_report.txt'' \<mapsto> TextFile (report_of (now w) df)),
        console := console w @ [SavedCsv, SavedSummary]\<rparr>)"
  by (simp add: save_body_def to_csv_def write_file_def print_def report_loop_ok Let_def
      report_of_def)

lemma save_results_ok:
  "write_error w ''ner_results.csv'' = None \<Longrightarrow> df \<noteq> [] \<Longrightarrow>
   write_error w ''ner_summary_report.txt'' = None \<Longrightarrow>
   save_results df w =
     (Inr (),
      w\<lparr>write_log := write_log w @ [''ner_results.csv'', ''ner_summary_report.txt''],
        files := (files w)(''ner_results.csv'' \<mapsto> CsvFile csv_header df,
                          ''ner_summary_report.txt'' \<mapsto> TextFile (report_of (now w) df)),
        console := console w @ [SavedCsv, SavedSummary]\<rparr>)"
  by (simp add: save_results_def save_body_ok)

lemma written_breakdown_ok:
  "write_error w ''ner_results.csv'' = None \<Longrightarrow> df \<noteq> [] \<Longrightarrow>
   write_error w ''ner_summary_report.txt'' = None \<Longrightarrow>
   written_breakdown (snd (save_results df w)) =
     map (\<lambda>(etype, count). (etype, count, percent_of count (length df)))
         (value_counts (map entity_type df))"
  by (simp add: save_results_ok written_breakdown_def report_of_def)

section \<open>Properties of the report\<close>

text \<open>
  Claim C2. On an empty list of results \<open>create_analysis_report\<close> raises nothing,
  returns no frame and no counts, and prints only the "no results" message: no statistic
  is computed. (For no list of results at all does it raise \<open>ZeroDivisionError\<close>.)
\<close>

theorem create_analysis_report_empty:
  "create_analysis_report explain [] w =
     (Inr None, w\<lparr>console := console w @ [NoResultsToAnalyze]\<rparr>)
   \<and> fst (create_analysis_report explain results w) \<noteq> Inl ZeroDivisionError"
proof -
  have "fst (create_analysis_report explain results w) \<noteq> Inl ZeroDivisionError"
  proof (cases "results = []")
    case True
    then show ?thesis by (simp add: create_analysis_report_def)
  next
    case False
    then show ?thesis by (simp add: create_analysis_report_nonempty)
  qed
  then show ?thesis
    by (simp add: create_analysis_report_def print_def)
qed

text \<open>
  Claim C3. For a non-empty list of results, the type breakdown printed by
  \<open>create_analysis_report\<close> has one line per distinct \<open>entity_type\<close>, with the number of
  rows of that type and the percentage computed from it as \<open>(count / total) * 100\<close> in
  double arithmetic. The exact percentages \<open>count / total * 100\<close> of these lines sum to
  exactly 100, and the sum of the printed doubles differs from 100 by at most
  \<open>100 * percent_tolerance\<close>, which is less than \<open>3 / 10^14\<close>. The breakdown that
  \<open>save_results\<close> writes to the summary file when both writes succeed is the same list.
\<close>

theorem percentages_sum_to_100:
  assumes "results \<noteq> []"
  shows "distinct (map fst
            (breakdown_lines (printed_by w (snd (create_analysis_report explain results w)))))
     \<and> set (map fst
            (breakdown_lines (printed_by w (snd (create_analysis_report explain results w))))) =
        entity_type ` set results
     \<and> (\<forall>(etype, count, percentage) \<in>
            set (breakdown_lines (printed_by w (snd (create_analysis_report explain results w)))).
          count = count_list (map entity_type results) etype
          \<and> percentage = float_mul (fl (of_nat count / of_nat (length results))) 100)
     \<and> sum_list (map (\<lambda>(etype, count, percentage). of_nat count / of_nat (length results) * 100)
            (breakdown_lines (printed_by w (snd (create_analysis_report explain results w))))) =
        (100 :: rat)
     \<and> \<bar>sum_list (map (\<lambda>(etype, count, percentage). percentage)
            (breakdown_lines (printed_by w (snd (create_analysis_report explain results w)))))
          - 100\<bar> \<le> 100 * percent_tolerance
     \<and> 100 * percent_tolerance < 3 / 10 ^ 14
     \<and> (write_error w' ''ner_results.csv'' = None \<and>
        write_error w' ''ner_summary_report.txt'' = None \<longrightarrow>
        written_breakdown (snd (save_results results w')) =
          breakdown_lines (printed_by w (snd (create_analysis_report explain results w))))"
proof -
  let ?vc = "value_counts (map entity_type results)"
  let ?n = "length results"
  let ?line = "\<lambda>(etype, count). (etype, count, percent_of count ?n)"
  let ?printed = "breakdown_lines (printed_by w (snd (create_analysis_report explain results w)))"
  have printed: "?printed = map ?line ?vc"
    by (simp only: create_analysis_report_nonempty [OF assms] printed_by_append
        breakdown_lines_summary snd_conv)
  have keys: "map fst (map ?line ?vc) = map fst ?vc"
    by (rule breakdown_entries_keys)
  note groups = value_counts_groups [of entity_type results]
  have dist: "distinct (map fst ?printed)"
    using groups by (simp only: printed keys)
  have dom: "set (map fst ?printed) = entity_type ` set results"
    using groups by (simp only: printed keys)
  have each: "\<forall>(etype, count, percentage) \<in> set ?printed.
          count = count_list (map entity_type results) etype
          \<and> percentage = float_mul (fl (of_nat count / of_nat ?n)) 100"
    using groups unfolding printed by (auto simp: percent_of_def)
  have exact_eq: "map (\<lambda>(etype, count, percentage). of_nat count / of_nat ?n * 100 :: rat)
        (map ?line ?vc) = map (\<lambda>(etype, count). of_nat count / of_nat ?n * 100) ?vc"
    by (rule breakdown_entries_exact)
  have exact: "sum_list (map (\<lambda>(etype, count, percentage). of_nat count / of_nat ?n * 100)
      ?printed) = (100 :: rat)"
    unfolding printed exact_eq using assms by (rule exact_percentages_total)
  have double_eq: "map (\<lambda>(etype, count, percentage). percentage) (map ?line ?vc) =
      map (\<lambda>(etype, count). percent_of count ?n) ?vc"
    by (rule breakdown_entries_percentages)
  have near: "\<bar>sum_list (map (\<lambda>(etype, count, percentage). percentage) ?printed) - 100\<bar>
      \<le> 100 * percent_tolerance"
    unfolding printed double_eq
    using percentages_sum_error [of ?n ?vc]
    by (simp only: exact_percentages_total [OF assms])
  have small: "100 * percent_tolerance < 3 / 10 ^ 14"
    by code_simp
  have same: "written_breakdown (snd (save_results results w')) = ?printed"
    if "write_error w' ''ner_results.csv'' = None"
      and "write_error w' ''ner_summary_report.txt'' = None"
    using written_breakdown_ok [OF that(1) assms that(2)] by (simp only: printed)
  from dist dom each exact near small same show ?thesis by blast
qed

theorem percentages_sum_to_100_witness:
  "thirds_results \<noteq> []
   \<and> write_error w0 ''ner_results.csv'' = None
   \<and> write_error w0 ''ner_summary_report.txt'' = None
   \<and> (''ORG'', 1, 2345624805922133 / 70368744177664) \<in>
        set (breakdown_lines
               (printed_by w0 (snd (create_analysis_report stub_explain thirds_results w0))))
   \<and> 1 = count_list (map entity_type thirds_results) ''ORG''
   \<and> 2345624805922133 / 70368744177664 =
        float_mul (fl (of_nat 1 / of_nat (length thirds_results))) 100
   \<and> sum_list (map (\<lambda>(etype, count, percentage).
                      of_nat count / of_nat (length thirds_results) * 100)
          (breakdown_lines
             (printed_by w0 (snd (create_analysis_report stub_explain thirds_results w0))))) =
        (100 :: rat)
   \<and> \<bar>sum_list (map (\<lambda>(etype, count, percentage). percentage)
          (breakdown_lines
             (printed_by w0 (snd (create_analysis_report stub_explain thirds_results w0)))))
        - 100\<bar> \<le> 100 * percent_tolerance
   \<and> sum_list (map (\<lambda>(etype, count, percentage). percentage)
          (breakdown_lines
             (printed_by w0 (snd (create_analysis_report stub_explain thirds_results w0))))) =
        100 - 1 / 70368744177664
   \<and> written_breakdown (snd (save_results thirds_results w0)) =
        breakdown_lines
          (printed_by w0 (snd (create_analysis_report stub_explain thirds_results w0)))"
proof -
  let ?printed = "breakdown_lines
      (printed_by w0 (snd (create_analysis_report stub_explain thirds_results w0)))"
  have ne: "thirds_results \<noteq> []" by code_simp
  have csv: "write_error w0 ''ner_results.csv'' = None" by (simp add: w0_def)
  have sumfile: "write_error w0 ''ner_summary_report.txt'' = None" by (simp add: w0_def)
  have org: "(''ORG'', 1, 2345624805922133 / 70368744177664) \<in> set ?printed" by code_simp
  have total: "sum_list (map (\<lambda>(etype, count, percentage). percentage) ?printed) =
      100 - 1 / 70368744177664" by code_simp
  note inst = percentages_sum_to_100 [OF ne, of w0 stub_explain w0]
  note each = inst [THEN conjunct2, THEN conjunct2, THEN conjunct1, THEN bspec, OF org]
  note exact = inst [THEN conjunct2, THEN conjunct2, THEN conjunct2, THEN conjunct1]
  note near = inst [THEN conjunct2, THEN conjunct2, THEN conjunct2, THEN conjunct2,
                    THEN conjunct1]
  note same = inst [THEN conjunct2, THEN conjunct2, THEN conjunct2, THEN conjunct2,
                    THEN conjunct2, THEN conjunct2, THEN mp, OF conjI, OF csv sumfile]
  from each have both: "1 = count_list (map entity_type thirds_results) ''ORG''
      \<and> 2345624805922133 / 70368744177664 =
        float_mul (fl (of_nat 1 / of_nat (length thirds_results))) 100"
    by (simp only: prod.case)
  note cnt = both [THEN conjunct1]
  note pct = both [THEN conjunct2]
  from ne csv sumfile org cnt pct exact near total same show ?thesis by (intro conjI)
qed

text \<open>
  Claim C6. For a non-empty list of results, \<open>common_entities\<close> (line 103) holds ten
  entries, or one per distinct entity text when there are fewer than ten: each entry is a
  distinct entity text of the results with its number of occurrences, the entries are in
  descending order of that number, and no entity text left out occurs more often than one
  that is kept. The summary prints the first five of these entries.
\<close>

theorem top_entities_ten_computed_five_shown:
  assumes "results \<noteq> []"
  shows "length (common_entities results) = min 10 (card (entity_text ` set results))
     \<and> distinct (map fst (common_entities results))
     \<and> (\<forall>(entity, count) \<in> set (common_entities results).
            entity \<in> entity_text ` set results
            \<and> count = count_list (map entity_text results) entity)
     \<and> sorted_wrt (\<lambda>p q. snd q \<le> snd p) (common_entities results)
     \<and> (\<forall>r \<in> set results.
            entity_text r \<notin> fst ` set (common_entities results) \<longrightarrow>
            (\<forall>(entity, count) \<in> set (common_entities results).
                count_list (map entity_text results) (entity_text r) \<le> count))
     \<and> common_lines (printed_by w (snd (create_analysis_report explain results w))) =
          take 5 (common_entities results)"
proof -
  let ?xs = "map entity_text results"
  let ?vc = "value_counts ?xs"
  note groups = value_counts_groups [of entity_text results]
  have ce: "common_entities results = take 10 ?vc"
    by (simp add: common_entities_def)
  have "length ?vc = card (set ?xs)"
    by (simp add: length_value_counts nunique_def length_remdups_card_conv)
  then have len: "length (common_entities results) = min 10 (card (entity_text ` set results))"
    by (simp add: ce min.commute)
  have "distinct (take 10 (map fst ?vc))"
    using groups by (intro distinct_take) blast
  then have dist: "distinct (map fst (common_entities results))"
    by (simp only: ce take_map)
  have sub: "set (common_entities results) \<subseteq> set ?vc"
    unfolding ce by (rule set_take_subset)
  have cnt: "\<forall>(entity, count) \<in> set (common_entities results).
            entity \<in> entity_text ` set results
            \<and> count = count_list (map entity_text results) entity"
  proof -
    have "entity \<in> entity_text ` set results \<and> count = count_list ?xs entity"
      if "(entity, count) \<in> set ?vc" for entity count
      using value_counts_count [OF that] by simp
    with sub show ?thesis by blast
  qed
  have desc: "sorted_wrt (\<lambda>p q. snd q \<le> snd p) (common_entities results)"
    unfolding ce using groups by (intro sorted_wrt_take) blast
  have top: "\<forall>p \<in> set (take 10 ?vc). \<forall>q \<in> set (drop 10 ?vc). snd q \<le> snd p"
    by (rule top_dominates_rest) (rule descending_value_counts)
  have out: "\<forall>(entity, count) \<in> set (common_entities results).
                count_list ?xs (entity_text r) \<le> count"
    if r: "r \<in> set results"
      and left_out: "entity_text r \<notin> fst ` set (common_entities results)" for r
  proof -
    let ?q = "(entity_text r, count_list ?xs (entity_text r))"
    from r have "?q \<in> set ?vc"
      by (simp add: set_value_counts)
    then have "?q \<in> set (take 10 ?vc) \<union> set (drop 10 ?vc)"
      by (simp only: set_append [symmetric] append_take_drop_id)
    moreover from left_out have "?q \<notin> set (take 10 ?vc)"
      unfolding ce by force
    ultimately have "?q \<in> set (drop 10 ?vc)" by blast
    with top show ?thesis
      unfolding ce by force
  qed
  have shown: "common_lines (printed_by w (snd (create_analysis_report explain results w))) =
          take 5 (common_entities results)"
    by (simp only: create_analysis_report_nonempty [OF assms] printed_by_append
        common_lines_summary snd_conv)
  from len dist cnt desc out shown show ?thesis by blast
qed

theorem top_entities_ten_computed_five_shown_witness:
  "busy_results \<noteq> []
   \<and> length (common_entities busy_results) = min 10 (card (entity_text ` set busy_results))
   \<and> length (common_entities busy_results) = 10
   \<and> (''k'', 3) \<in> set (common_entities busy_results)
   \<and> ''k'' \<in> entity_text ` set busy_results
   \<and> 3 = count_list (map entity_text busy_results) ''k''
   \<and> busy_results ! 10 \<in> set busy_results
   \<and> entity_text (busy_results ! 10) \<notin> fst ` set (common_entities busy_results)
   \<and> (''a'', 2) \<in> set (common_entities busy_results)
   \<and> count_list (map entity_text busy_results) (entity_text (busy_results ! 10)) \<le> 2
   \<and> common_lines (printed_by w0 (snd (create_analysis_report stub_explain busy_results w0))) =
       take 5 (common_entities busy_results)
   \<and> take 5 (common_entities busy_results) =
       [(''k'', 3), (''a'', 2), (''b'', 1), (''c'', 1), (''d'', 1)]"
proof -
  let ?ce = "common_entities busy_results"
  have ne: "busy_results \<noteq> []" by code_simp
  have ten: "length ?ce = 10" by code_simp
  have k: "(''k'', 3) \<in> set ?ce" by code_simp
  have a: "(''a'', 2) \<in> set ?ce" by code_simp
  have j: "busy_results ! 10 \<in> set busy_results" by code_simp
  have left_out: "entity_text (busy_results ! 10) \<notin> fst ` set ?ce" by code_simp
  have five: "take 5 ?ce = [(''k'', 3), (''a'', 2), (''b'', 1), (''c'', 1), (''d'', 1)]"
    by code_simp
  note inst = top_entities_ten_computed_five_shown [OF ne, of w0 stub_explain]
  note len = inst [THEN conjunct1]
  note cnt = inst [THEN conjunct2, THEN conjunct2, THEN conjunct1, THEN bspec, OF k]
  note out = inst [THEN conjunct2, THEN conjunct2, THEN conjunct2, THEN conjunct2,
                   THEN conjunct1, THEN bspec, OF j, THEN mp, OF left_out, THEN bspec, OF a]
  note shown = inst [THEN conjunct2, THEN conjunct2, THEN conjunct2, THEN conjunct2,
                     THEN conjunct2]
  from cnt have dom: "''k'' \<in> entity_text ` set busy_results"
    and cnt': "3 = count_list (map entity_text busy_results) ''k''"
    by simp_all
  from out have out': "count_list (map entity_text busy_results)
      (entity_text (busy_results ! 10)) \<le> 2" by simp
  from ne len ten k dom cnt' j left_out a out' shown five show ?thesis by (intro conjI)
qed

text \<open>
  Claim C7. For a non-empty list of results, the type breakdown printed by
  \<open>create_analysis_report\<close> is the list of counts it returns: one line per distinct
  \<open>entity_type\<close> with its number of occurrences, in descending order of that number. The
  breakdown written to the summary file by \<open>save_results\<close>, when both writes succeed, is
  the same list in the same order.
\<close>

theorem breakdown_descending_and_same_in_report:
  assumes "results \<noteq> []"
  shows "fst (create_analysis_report explain results w) =
       Inr (Some (results, map (\<lambda>(etype, count, percentage). (etype, count))
          (breakdown_lines (printed_by w (snd (create_analysis_report explain results w))))))
     \<and> distinct (map fst
          (breakdown_lines (printed_by w (snd (create_analysis_report explain results w)))))
     \<and> set (map fst
          (breakdown_lines (printed_by w (snd (create_analysis_report explain results w))))) =
        entity_type ` set results
     \<and> (\<forall>(etype, count, percentage) \<in>
            set (breakdown_lines (printed_by w (snd (create_analysis_report explain results w)))).
          count = count_list (map entity_type results) etype)
     \<and> sorted_wrt (\<lambda>p q. fst (snd q) \<le> fst (snd p))
          (breakdown_lines (printed_by w (snd (create_analysis_report explain results w))))
     \<and> (write_error w' ''ner_results.csv'' = None \<and>
        write_error w' ''ner_summary_report.txt'' = None \<longrightarrow>
        written_breakdown (snd (save_results results w')) =
          breakdown_lines (printed_by w (snd (create_analysis_report explain results w))))"
proof -
  let ?vc = "value_counts (map entity_type results)"
  let ?line = "\<lambda>(etype, count). (etype, count, percent_of count (length results))"
  let ?printed = "breakdown_lines (printed_by w (snd (create_analysis_report explain results w)))"
  have printed: "?printed = map ?line ?vc"
    by (simp only: create_analysis_report_nonempty [OF assms] printed_by_append
        breakdown_lines_summary snd_conv)
  have proj: "map (\<lambda>(etype, count, percentage). (etype, count)) (map ?line ?vc) = ?vc"
    by (rule breakdown_entries_proj)
  have keys: "map fst (map ?line ?vc) = map fst ?vc"
    by (rule breakdown_entries_keys)
  have counts: "map (\<lambda>p. fst (snd p)) (map ?line ?vc) = map snd ?vc"
    by (rule breakdown_entries_counts)
  note groups = value_counts_groups [of entity_type results]
  have ret: "fst (create_analysis_report explain results w) =
       Inr (Some (results, map (\<lambda>(etype, count, percentage). (etype, count)) ?printed))"
    unfolding printed proj by (simp only: create_analysis_report_nonempty [OF assms] fst_conv)
  have dist: "distinct (map fst ?printed)"
    using groups by (simp only: printed keys)
  have dom: "set (map fst ?printed) = entity_type ` set results"
    using groups by (simp only: printed keys)
  have cnt: "\<forall>(etype, count, percentage) \<in> set ?printed.
          count = count_list (map entity_type results) etype"
    using groups unfolding printed by auto
  have "sorted_wrt (\<lambda>p q. snd q \<le> snd p) ?vc"
    using groups by blast
  then have "sorted_wrt (\<ge>) (map snd ?vc)"
    by (simp add: sorted_wrt_map)
  then have "sorted_wrt (\<ge>) (map (\<lambda>p. fst (snd p)) (map ?line ?vc))"
    by (simp only: counts)
  then have desc: "sorted_wrt (\<lambda>p q. fst (snd q) \<le> fst (snd p)) ?printed"
    unfolding printed by (simp add: sorted_wrt_map)
  have same: "written_breakdown (snd (save_results results w')) = ?printed"
    if "write_error w' ''ner_results.csv'' = None"
      and "write_error w' ''ner_summary_report.txt'' = None"
    using written_breakdown_ok [OF that(1) assms that(2)] by (simp only: printed)
  from ret dist dom cnt desc same show ?thesis by blast
qed

theorem breakdown_descending_and_same_in_report_witness:
  "stub_results \<noteq> []
   \<and> write_error w0 ''ner_results.csv'' = None
   \<and> write_error w0 ''ner_summary_report.txt'' = None
   \<and> (''GPE'', 2, 50) \<in>
        set (breakdown_lines (printed_by w0 (snd (create_analysis_report stub_explain stub_results w0))))
   \<and> 2 = count_list (map entity_type stub_results) ''GPE''
   \<and> written_breakdown (snd (save_results stub_results w0)) =
        breakdown_lines (printed_by w0 (snd (create_analysis_report stub_explain stub_results w0)))
   \<and> written_breakdown (snd (save_results stub_results w0)) =
        [(''GPE'', 2, 50), (''PERSON'', 1, 25), (''ORDINAL'', 1, 25)]"
proof -
  let ?printed =
    "breakdown_lines (printed_by w0 (snd (create_analysis_report stub_explain stub_results w0)))"
  have ne: "stub_results \<noteq> []" by code_simp
  have csv: "write_error w0 ''ner_results.csv'' = None" by (simp add: w0_def)
  have sumfile: "write_error w0 ''ner_summary_report.txt'' = None" by (simp add: w0_def)
  have gpe: "(''GPE'', 2, 50) \<in> set ?printed" by code_simp
  have onfile: "written_breakdown (snd (save_results stub_results w0)) =
      [(''GPE'', 2, 50), (''PERSON'', 1, 25), (''ORDINAL'', 1, 25)]" by code_simp
  note inst = breakdown_descending_and_same_in_report [OF ne, of stub_explain w0 w0]
  note cnt = inst [THEN conjunct2, THEN conjunct2, THEN conjunct2, THEN conjunct1,
                   THEN bspec, OF gpe]
  note same = inst [THEN conjunct2, THEN conjunct2, THEN conjunct2, THEN conjunct2,
                    THEN conjunct2, THEN mp, OF conjI, OF csv sumfile]
  from cnt have cnt': "2 = count_list (map entity_type stub_results) ''GPE''" by simp
  from ne csv sumfile gpe cnt' same onfile show ?thesis by (intro conjI)
qed

lemma scenario_rows:
  "fst (analyze_texts stub_nlp explain [scenario_text] w) =
     map (row_of 0 scenario_text) (map (entity_of explain) (stub_nlp scenario_text))"
  by (simp add: analyze_texts_fst rows_from_def extract_entities_map)

text \<open>
  Claim C4. On the one sentence about Barack Obama, with the extractor that returns the
  four given spans, \<open>analyze_texts\<close> returns exactly four rows, all with \<open>text_id\<close> 1,
  carrying the four spans in order; and \<open>create_analysis_report\<close> on them prints 1 text,
  4 entities, 4 unique entities, 3 entity types and an average of 4 entities per text.
\<close>

theorem obama_scenario:
  "length (fst (analyze_texts stub_nlp explain [scenario_text] w)) = 4
   \<and> map text_id (fst (analyze_texts stub_nlp explain [scenario_text] w)) = [1, 1, 1, 1]
   \<and> map (\<lambda>r. (entity_text r, entity_type r))
          (fst (analyze_texts stub_nlp explain [scenario_text] w)) =
        [(''Barack Obama'', ''PERSON''), (''44th'', ''ORDINAL''),
         (''the United States'', ''GPE''), (''Hawaii'', ''GPE'')]
   \<and> take 5 (drop 2 (printed_by w'
          (snd (create_analysis_report explain
                  (fst (analyze_texts stub_nlp explain [scenario_text] w)) w')))) =
        [TotalTexts 1, TotalEntities 4, UniqueEntities 4, EntityTypes 3, AvgEntitiesPerText 4]"
proof -
  define R where "R = map (row_of 0 scenario_text) (map (entity_of explain) (stub_nlp scenario_text))"
  have ne: "R \<noteq> []" by (simp add: R_def stub_nlp_def)
  have len: "length R = 4" by (simp add: R_def stub_nlp_def)
  have ids: "map text_id R = [1, 1, 1, 1]"
    by (simp add: R_def stub_nlp_def row_of_def)
  have pairs: "map (\<lambda>r. (entity_text r, entity_type r)) R =
        [(''Barack Obama'', ''PERSON''), (''44th'', ''ORDINAL''),
         (''the United States'', ''GPE''), (''Hawaii'', ''GPE'')]"
    by (simp add: R_def stub_nlp_def row_of_def entity_of_def)
  have texts: "nunique (map text_id R) = 1"
    by (simp add: R_def stub_nlp_def row_of_def nunique_def)
  have ents: "nunique (map entity_text R) = 4"
    by (simp add: R_def stub_nlp_def row_of_def entity_of_def nunique_def)
  have types: "nunique (map entity_type R) = 3"
    by (simp add: R_def stub_nlp_def row_of_def entity_of_def nunique_def)
  have "take 5 (drop 2 (summary_lines explain R)) =
        [TotalTexts 1, TotalEntities 4, UniqueEntities 4, EntityTypes 3, AvgEntitiesPerText 4]"
    unfolding summary_lines_def by (simp add: texts ents types len fl_4)
  then have stats: "take 5 (drop 2 (printed_by w' (snd (create_analysis_report explain R w')))) =
        [TotalTexts 1, TotalEntities 4, UniqueEntities 4, EntityTypes 3, AvgEntitiesPerText 4]"
    by (simp only: create_analysis_report_nonempty [OF ne] printed_by_append snd_conv)
  have rows: "fst (analyze_texts stub_nlp explain [scenario_text] w) = R"
    unfolding R_def by (rule scenario_rows)
  from len ids pairs stats show ?thesis
    unfolding rows by (intro conjI)
qed

section \<open>Failure of a write\<close>

lemma custom_loop_console:
  "\<exists>ls. custom_loop explain ents w = w\<lparr>console := console w @ ls\<rparr>"
proof (induction ents arbitrary: w)
  case Nil
  have "custom_loop explain [] w = w\<lparr>console := console w @ []\<rparr>" by simp
  then show ?case by blast
next
  case (Cons ent ents)
  let ?l = "CustomEntityLine (span_text ent) (span_label ent) (explain (span_label ent))"
  from Cons.IH [of "print ?l w"] obtain ls where
    "custom_loop explain (ent # ents) w = (print ?l w)\<lparr>console := console (print ?l w) @ ls\<rparr>"
    by auto
  then have "custom_loop explain (ent # ents) w = w\<lparr>console := console w @ (?l # ls)\<rparr>"
    by (simp add: print_def)
  then show ?case by blast
qed

lemma test_custom_text_console:
  "\<exists>ls. test_custom_text nlp explain w = w\<lparr>console := console w @ ls\<rparr>"
proof -
  define hd_lines where
    "hd_lines = [TestingHeader, Rule 30, TextLine custom_text, EntitiesFoundHeader]"
  define w4 where "w4 = print EntitiesFoundHeader (print (TextLine custom_text)
      (print (Rule 30) (print TestingHeader w)))"
  have w4: "w4 = w\<lparr>console := console w @ hd_lines\<rparr>"
    by (simp add: w4_def hd_lines_def print_def)
  show ?thesis
  proof (cases "nlp custom_text \<noteq> []")
    case True
    obtain ls where "custom_loop explain (nlp custom_text) w4 = w4\<lparr>console := console w4 @ ls\<rparr>"
      using custom_loop_console by blast
    with True have "test_custom_text nlp explain w = w\<lparr>console := console w @ (hd_lines @ ls)\<rparr>"
      by (simp add: test_custom_text_def Let_def w4_def [symmetric]) (simp add: w4)
    then show ?thesis by blast
  next
    case False
    then have "test_custom_text nlp explain w =
        w\<lparr>console := console w @ (hd_lines @ [NoEntitiesTryAdding])\<rparr>"
      by (simp add: test_custom_text_def Let_def w4_def [symmetric]) (simp add: w4 print_def)
    then show ?thesis by blast
  qed
qed

lemma save_results_csv_fails:
  "write_error w ''ner_results.csv'' = Some e \<Longrightarrow> is_Exception e \<Longrightarrow>
   fst (save_results df w) = Inr ()
   \<and> console (snd (save_results df w)) = console w @ [CouldNotSave e]"
  by (simp add: save_results_def save_body_csv_fails print_def)

lemma save_results_empty:
  "write_error w ''ner_results.csv'' = None \<Longrightarrow>
   save_results [] w =
     (Inr (), w\<lparr>write_log := write_log w @ [''ner_results.csv''],
                files := (files w)(''ner_results.csv'' \<mapsto> CsvFile [] []),
                console := console w @ [SavedCsv, CouldNotSave (KeyError ''text_id'')]\<rparr>)"
  by (simp add: save_results_def save_body_empty print_def)

lemma save_results_summary_fails:
  "write_error w ''ner_results.csv'' = None \<Longrightarrow> df \<noteq> [] \<Longrightarrow>
   write_error w ''ner_summary_report.txt'' = Some e \<Longrightarrow> is_Exception e \<Longrightarrow>
   fst (save_results df w) = Inr ()
   \<and> console (snd (save_results df w)) = console w @ [SavedCsv, CouldNotSave e]"
  by (simp add: save_results_def save_body_summary_fails print_def)

lemma save_results_returns:
  assumes "ordinary_failures w"
  shows "fst (save_results df w) = Inr ()
     \<and> (\<exists>s. console (snd (save_results df w)) = console w @ s)"
proof (cases "write_error w ''ner_results.csv''")
  case (Some e)
  with assms have "is_Exception e" by (simp add: ordinary_failures_def)
  from save_results_csv_fails [OF Some this] show ?thesis by simp
next
  case csv: None
  show ?thesis
  proof (cases "df = []")
    case True
    with save_results_empty [OF csv] show ?thesis by simp
  next
    case df: False
    show ?thesis
    proof (cases "write_error w ''ner_summary_report.txt''")
      case None
      from save_results_ok [OF csv df None] show ?thesis by simp
    next
      case (Some e)
      with assms have "is_Exception e" by (simp add: ordinary_failures_def)
      from save_results_summary_fails [OF csv df Some this] show ?thesis by simp
    qed
  qed
qed

lemma save_results_disk:
  "files (snd (save_results df w)) = files (snd (save_body df w))
   \<and> write_log (snd (save_results df w)) = write_log (snd (save_body df w))"
  by (cases "save_body df w") (auto simp: save_results_def print_def split: sum.splits)

lemma ordinary_failures_console:
  "ordinary_failures (w\<lparr>console := c\<rparr>) = ordinary_failures w"
  by (simp add: ordinary_failures_def)

lemma main_from_completes:
  assumes "ordinary_failures w"
  shows "fst (main_from nlp explain texts w) = Inr ()
     \<and> (fst (analyze_texts nlp explain texts w) \<noteq> [] \<longrightarrow>
          (\<exists>a s t. printed_by w (snd (main_from nlp explain texts w)) =
             [SampleTexts (length texts)] @ a
             @ summary_lines explain (fst (analyze_texts nlp explain texts w)) @ s @ t
             @ [ProjectCompleted, CheckFiles, FileName ''ner_results.csv'',
                FileName ''ner_summary_report.txt'']))"
proof -
  define w1 where "w1 = print (SampleTexts (length texts)) w"
  define R where "R = fst (analyze_texts nlp explain texts w1)"
  define w2 where "w2 = snd (analyze_texts nlp explain texts w1)"
  have an: "analyze_texts nlp explain texts w1 = (R, w2)"
    by (simp add: R_def w2_def)
  have R: "fst (analyze_texts nlp explain texts w) = R"
    by (simp add: R_def analyze_texts_fst)
  obtain a where "w2 = w1\<lparr>console := console w1 @ a\<rparr>"
    unfolding w2_def using analyze_texts_console by blast
  then have w2: "w2 = w\<lparr>console := console w @ ([SampleTexts (length texts)] @ a)\<rparr>"
    by (simp add: w1_def print_def)
  show ?thesis
  proof (cases "R = []")
    case True
    then have "main_from nlp explain texts w = (Inr (), print NoEntitiesInTexts w2)"
      by (simp add: main_from_def Let_def w1_def [symmetric] an)
    with True show ?thesis by (simp add: R)
  next
    case False
    define w3 where "w3 = w2\<lparr>console := console w2 @ summary_lines explain R\<rparr>"
    define w4 where "w4 = snd (save_results R w3)"
    define w5 where "w5 = test_custom_text nlp explain w4"
    define tail_lines where "tail_lines = [ProjectCompleted, CheckFiles,
      FileName ''ner_results.csv'', FileName ''ner_summary_report.txt'']"
    have rep: "create_analysis_report explain R w2 =
        (Inr (Some (R, value_counts (map entity_type R))), w3)"
      unfolding w3_def by (rule create_analysis_report_nonempty [OF False])
    have "ordinary_failures w3"
      using assms by (simp add: w3_def w2 ordinary_failures_console)
    from save_results_returns [OF this, of R] obtain s where
      sv: "save_results R w3 = (Inr (), w4)" and w4: "console w4 = console w3 @ s"
      unfolding w4_def by (metis prod.collapse)
    obtain t where w5: "w5 = w4\<lparr>console := console w4 @ t\<rparr>"
      unfolding w5_def using test_custom_text_console by blast
    have "main_from nlp explain texts w =
        (Inr (), print (FileName ''ner_summary_report.txt'') (print (FileName ''ner_results.csv'')
           (print CheckFiles (print ProjectCompleted w5))))"
      using False by (simp add: main_from_def Let_def w1_def [symmetric] an rep sv w5_def)
    then have res: "fst (main_from nlp explain texts w) = Inr ()"
      and con: "console (snd (main_from nlp explain texts w)) = console w5 @ tail_lines"
      by (simp_all add: print_def tail_lines_def)
    have "console w5 = console w @ ([SampleTexts (length texts)] @ a @ summary_lines explain R @ s @ t)"
      by (simp add: w5 w4 w3_def w2)
    with con have "printed_by w (snd (main_from nlp explain texts w)) =
        [SampleTexts (length texts)] @ a @ summary_lines explain R @ s @ t @ tail_lines"
      by (simp add: printed_by_def)
    with res show ?thesis
      unfolding R tail_lines_def by blast
  qed
qed

text \<open>
  Claim C5. When the only failures of the two writes are exceptions that
  \<open>except Exception\<close> catches, \<open>save_results\<close> returns normally whatever fails: what
  was on the console before is still there, and a failed write of either file is followed
  by the warning that carries its exception. The rest of \<open>main\<close> returns normally as
  well; when entities were found its output contains the summary printed by
  \<open>create_analysis_report\<close> and ends with the completion message.
\<close>

theorem save_failure_is_not_fatal:
  assumes "ordinary_failures w"
  shows "fst (save_results df w) = Inr ()
     \<and> take (length (console w)) (console (snd (save_results df w))) = console w
     \<and> (write_error w ''ner_results.csv'' = Some e \<longrightarrow>
          printed_by w (snd (save_results df w)) = [CouldNotSave e])
     \<and> (write_error w ''ner_results.csv'' = None \<and> df \<noteq> [] \<and>
        write_error w ''ner_summary_report.txt'' = Some e \<longrightarrow>
          printed_by w (snd (save_results df w)) = [SavedCsv, CouldNotSave e])
     \<and> fst (main_from nlp explain texts w) = Inr ()
     \<and> (fst (analyze_texts nlp explain texts w) \<noteq> [] \<longrightarrow>
          (\<exists>a s t. printed_by w (snd (main_from nlp explain texts w)) =
             [SampleTexts (length texts)] @ a
             @ summary_lines explain (fst (analyze_texts nlp explain texts w)) @ s @ t
             @ [ProjectCompleted, CheckFiles, FileName ''ner_results.csv'',
                FileName ''ner_summary_report.txt'']))"
proof -
  from save_results_returns [OF assms, of df] obtain s where
    ret: "fst (save_results df w) = Inr ()"
    and con: "console (snd (save_results df w)) = console w @ s"
    by blast
  from con have kept: "take (length (console w)) (console (snd (save_results df w))) = console w"
    by simp
  have csv: "printed_by w (snd (save_results df w)) = [CouldNotSave e]"
    if f: "write_error w ''ner_results.csv'' = Some e"
  proof -
    from assms f have "is_Exception e" by (simp add: ordinary_failures_def)
    from save_results_csv_fails [OF f this] show ?thesis
      by (simp add: printed_by_def)
  qed
  have rep: "printed_by w (snd (save_results df w)) = [SavedCsv, CouldNotSave e]"
    if ok: "write_error w ''ner_results.csv'' = None" and df: "df \<noteq> []"
      and f: "write_error w ''ner_summary_report.txt'' = Some e"
  proof -
    from assms f have "is_Exception e" by (simp add: ordinary_failures_def)
    from save_results_summary_fails [OF ok df f this] show ?thesis
      by (simp add: printed_by_def)
  qed
  from ret kept csv rep main_from_completes [OF assms, of nlp explain texts]
  show ?thesis by blast
qed

theorem save_failure_is_not_fatal_witness:
  "ordinary_failures w_csv_denied
   \<and> write_error w_csv_denied ''ner_results.csv'' = Some (OSError ''Permission denied'')
   \<and> fst (save_results stub_results w_csv_denied) = Inr ()
   \<and> printed_by w_csv_denied (snd (save_results stub_results w_csv_denied)) =
       [CouldNotSave (OSError ''Permission denied'')]
   \<and> ordinary_failures w_summary_denied
   \<and> write_error w_summary_denied ''ner_results.csv'' = None
   \<and> stub_results \<noteq> []
   \<and> write_error w_summary_denied ''ner_summary_report.txt'' = Some (OSError ''Permission denied'')
   \<and> printed_by w_summary_denied (snd (save_results stub_results w_summary_denied)) =
       [SavedCsv, CouldNotSave (OSError ''Permission denied'')]
   \<and> fst (analyze_texts stub_nlp stub_explain [scenario_text] w_summary_denied) \<noteq> []
   \<and> fst (main_from stub_nlp stub_explain [scenario_text] w_summary_denied) = Inr ()
   \<and> (\<exists>a s t. printed_by w_summary_denied
          (snd (main_from stub_nlp stub_explain [scenario_text] w_summary_denied)) =
             [SampleTexts (length [scenario_text])] @ a
             @ summary_lines stub_explain
                 (fst (analyze_texts stub_nlp stub_explain [scenario_text] w_summary_denied))
             @ s @ t
             @ [ProjectCompleted, CheckFiles, FileName ''ner_results.csv'',
                FileName ''ner_summary_report.txt''])"
proof -
  have o1: "ordinary_failures w_csv_denied" by code_simp
  have f1: "write_error w_csv_denied ''ner_results.csv'' = Some (OSError ''Permission denied'')"
    by code_simp
  have o2: "ordinary_failures w_summary_denied" by code_simp
  have n2: "write_error w_summary_denied ''ner_results.csv'' = None" by code_simp
  have ne: "stub_results \<noteq> []" by code_simp
  have f2: "write_error w_summary_denied ''ner_summary_report.txt'' =
      Some (OSError ''Permission denied'')" by code_simp
  have found: "fst (analyze_texts stub_nlp stub_explain [scenario_text] w_summary_denied) \<noteq> []"
    by code_simp
  note i1 = save_failure_is_not_fatal [OF o1, of stub_results "OSError ''Permission denied''"]
  note i2 = save_failure_is_not_fatal [OF o2, of stub_results "OSError ''Permission denied''"
      stub_nlp stub_explain "[scenario_text]"]
  note ret = i1 [THEN conjunct1]
  note csv = i1 [THEN conjunct2, THEN conjunct2, THEN conjunct1, THEN mp, OF f1]
  note rep = i2 [THEN conjunct2, THEN conjunct2, THEN conjunct2, THEN conjunct1, THEN mp,
      OF conjI, OF n2 conjI, OF ne f2]
  note run = i2 [THEN conjunct2, THEN conjunct2, THEN conjunct2, THEN conjunct2, THEN conjunct1]
  note fin = i2 [THEN conjunct2, THEN conjunct2, THEN conjunct2, THEN conjunct2, THEN conjunct2,
      THEN mp, OF found]
  from o1 f1 ret csv o2 n2 ne f2 rep found run fin show ?thesis by (intro conjI)
qed

text \<open>
  Claim C9. If writing the CSV file fails, the only write attempted by \<open>save_results\<close>
  is that of the CSV file: the summary file is never written and stays as it was. If
  writing the CSV file succeeds and writing the summary file fails, the CSV file stays on
  disk with the frame in it. In neither case is the failed write undone: the file that
  could not be written is as before when it could not be opened, and holds part of the new
  content when the failure came after it was opened.
\<close>

theorem save_is_not_atomic:
  "(write_error w ''ner_results.csv'' = Some e \<longrightarrow>
       write_log (snd (save_results df w)) = write_log w @ [''ner_results.csv'']
     \<and> files (snd (save_results df w)) ''ner_summary_report.txt'' =
         files w ''ner_summary_report.txt''
     \<and> files (snd (save_results df w)) ''ner_results.csv'' =
         (if opened_before_failure w ''ner_results.csv''
          then Some (PartialFile (CsvFile (if df = [] then [] else csv_header) df))
          else files w ''ner_results.csv''))
   \<and> (write_error w ''ner_results.csv'' = None \<and>
      write_error w ''ner_summary_report.txt'' = Some e \<longrightarrow>
       files (snd (save_results df w)) ''ner_results.csv'' =
         Some (CsvFile (if df = [] then [] else csv_header) df)
     \<and> write_log (snd (save_results df w)) =
         write_log w @ (if df = [] then [''ner_results.csv'']
                        else [''ner_results.csv'', ''ner_summary_report.txt''])
     \<and> files (snd (save_results df w)) ''ner_summary_report.txt'' =
         (if df \<noteq> [] \<and> opened_before_failure w ''ner_summary_report.txt''
          then Some (PartialFile (TextFile (report_of (now w) df)))
          else files w ''ner_summary_report.txt''))"
proof -
  note disk = save_results_disk [of df w]
  have first: "write_log (snd (save_results df w)) = write_log w @ [''ner_results.csv'']
     \<and> files (snd (save_results df w)) ''ner_summary_report.txt'' =
         files w ''ner_summary_report.txt''
     \<and> files (snd (save_results df w)) ''ner_results.csv'' =
         (if opened_before_failure w ''ner_results.csv''
          then Some (PartialFile (CsvFile (if df = [] then [] else csv_header) df))
          else files w ''ner_results.csv'')"
    if f: "write_error w ''ner_results.csv'' = Some e"
    using disk by (simp add: save_body_csv_fails [OF f])
  have second: "files (snd (save_results df w)) ''ner_results.csv'' =
         Some (CsvFile (if df = [] then [] else csv_header) df)
     \<and> write_log (snd (save_results df w)) =
         write_log w @ (if df = [] then [''ner_results.csv'']
                        else [''ner_results.csv'', ''ner_summary_report.txt''])
     \<and> files (snd (save_results df w)) ''ner_summary_report.txt'' =
         (if df \<noteq> [] \<and> opened_before_failure w ''ner_summary_report.txt''
          then Some (PartialFile (TextFile (report_of (now w) df)))
          else files w ''ner_summary_report.txt'')"
    if ok: "write_error w ''ner_results.csv'' = None"
      and f: "write_error w ''ner_summary_report.txt'' = Some e"
  proof (cases "df = []")
    case True
    with disk show ?thesis by (simp add: save_body_empty [OF ok])
  next
    case False
    with disk show ?thesis by (simp add: save_body_summary_fails [OF ok False f])
  qed
  from first second show ?thesis by blast
qed

theorem save_is_not_atomic_witness:
  "write_error w_csv_disk_full ''ner_results.csv'' = Some (OSError ''No space left on device'')
   \<and> write_log (snd (save_results stub_results w_csv_disk_full)) =
       write_log w_csv_disk_full @ [''ner_results.csv'']
   \<and> files (snd (save_results stub_results w_csv_disk_full)) ''ner_summary_report.txt'' =
       files w_csv_disk_full ''ner_summary_report.txt''
   \<and> files w_csv_disk_full ''ner_summary_report.txt'' =
       Some (TextFile (report_of ''2023-12-31 00:00:00'' stub_results))
   \<and> files (snd (save_results stub_results w_csv_disk_full)) ''ner_results.csv'' =
       Some (PartialFile (CsvFile csv_header stub_results))
   \<and> write_error w_csv_denied ''ner_results.csv'' = Some (OSError ''Permission denied'')
   \<and> write_log (snd (save_results stub_results w_csv_denied)) =
       write_log w_csv_denied @ [''ner_results.csv'']
   \<and> files (snd (save_results stub_results w_csv_denied)) ''ner_results.csv'' = None
   \<and> write_error w_summary_disk_full ''ner_results.csv'' = None
   \<and> write_error w_summary_disk_full ''ner_summary_report.txt'' =
       Some (OSError ''No space left on device'')
   \<and> files (snd (save_results stub_results w_summary_disk_full)) ''ner_results.csv'' =
       Some (CsvFile csv_header stub_results)
   \<and> write_log (snd (save_results stub_results w_summary_disk_full)) =
       write_log w_summary_disk_full @ [''ner_results.csv'', ''ner_summary_report.txt'']
   \<and> files (snd (save_results stub_results w_summary_disk_full)) ''ner_summary_report.txt'' =
       Some (PartialFile (TextFile (report_of (now w_summary_disk_full) stub_results)))"
proof -
  have ne: "stub_results \<noteq> []" by code_simp
  have f1: "write_error w_csv_disk_full ''ner_results.csv'' =
      Some (OSError ''No space left on device'')" by code_simp
  have o1: "opened_before_failure w_csv_disk_full ''ner_results.csv''" by code_simp
  have old: "files w_csv_disk_full ''ner_summary_report.txt'' =
      Some (TextFile (report_of ''2023-12-31 00:00:00'' stub_results))"
    by (simp add: w_csv_disk_full_def w_earlier_run_def)
  have f0: "write_error w_csv_denied ''ner_results.csv'' = Some (OSError ''Permission denied'')"
    by code_simp
  have o0: "\<not> opened_before_failure w_csv_denied ''ner_results.csv''" by code_simp
  have none0: "files w_csv_denied ''ner_results.csv'' = None" by code_simp
  have n2: "write_error w_summary_disk_full ''ner_results.csv'' = None" by code_simp
  have f2: "write_error w_summary_disk_full ''ner_summary_report.txt'' =
      Some (OSError ''No space left on device'')" by code_simp
  have o2: "opened_before_failure w_summary_disk_full ''ner_summary_report.txt''" by code_simp
  note i0 = save_is_not_atomic [of w_csv_denied "OSError ''Permission denied''" stub_results]
  note i1 = save_is_not_atomic
    [of w_csv_disk_full "OSError ''No space left on device''" stub_results]
  note i2 = save_is_not_atomic
    [of w_summary_disk_full "OSError ''No space left on device''" stub_results]
  note a0 = i0 [THEN conjunct1, THEN mp, OF f0]
  note a1 = i1 [THEN conjunct1, THEN mp, OF f1]
  note b2 = i2 [THEN conjunct2, THEN mp, OF conjI, OF n2 f2]
  from a0 o0 none0 have r0: "write_log (snd (save_results stub_results w_csv_denied)) =
       write_log w_csv_denied @ [''ner_results.csv'']"
    and r0': "files (snd (save_results stub_results w_csv_denied)) ''ner_results.csv'' = None"
    by simp_all
  from a1 o1 ne have r1: "write_log (snd (save_results stub_results w_csv_disk_full)) =
       write_log w_csv_disk_full @ [''ner_results.csv'']"
    and r1': "files (snd (save_results stub_results w_csv_disk_full)) ''ner_summary_report.txt'' =
       files w_csv_disk_full ''ner_summary_report.txt''"
    and r1'': "files (snd (save_results stub_results w_csv_disk_full)) ''ner_results.csv'' =
       Some (PartialFile (CsvFile csv_header stub_results))"
    by simp_all
  from b2 o2 ne have r2: "files (snd (save_results stub_results w_summary_disk_full))
        ''ner_results.csv'' = Some (CsvFile csv_header stub_results)"
    and r2': "write_log (snd (save_results stub_results w_summary_disk_full)) =
       write_log w_summary_disk_full @ [''ner_results.csv'', ''ner_summary_report.txt'']"
    and r2'': "files (snd (save_results stub_results w_summary_disk_full))
        ''ner_summary_report.txt'' =
       Some (PartialFile (TextFile (report_of (now w_summary_disk_full) stub_results)))"
    by simp_all
  from f1 r1 r1' old r1'' f0 r0 r0' n2 f2 r2 r2' r2'' show ?thesis by (intro conjI)
qed

section \<open>Empty input\<close>

text \<open>
  Claim C10. On the empty sequence of texts \<open>analyze_texts\<close> returns the empty list, and
  the rest of \<open>main\<close> then prints only the "no entities" message: nothing is reported,
  no write is attempted and the files on disk are as before.
\<close>

theorem empty_input_skips_report_and_save:
  "analyze_texts nlp explain [] w =
     ([], w\<lparr>console := console w @ [AnalyzingTexts, Rule 50, TotalExtracted 0]\<rparr>)
   \<and> main_from nlp explain [] w =
     (Inr (), w\<lparr>console := console w @ [SampleTexts 0, AnalyzingTexts, Rule 50,
                                          TotalExtracted 0, NoEntitiesInTexts]\<rparr>)
   \<and> files (snd (main_from nlp explain [] w)) = files w
   \<and> write_log (snd (main_from nlp explain [] w)) = write_log w"
  by (simp add: analyze_texts_def main_from_def print_def)

end
